theory Spec2Isabelle
  imports Complex_Main "HOL-Library.AList" "HOL-Library.Char_ord" "HOL-Library.List_Lexorder"
    "HOL-Library.Product_Lexorder"
begin

section \<open>Conventions of the embedding\<close>

text \<open>
  The Python sources are \<^verbatim>\<open>Statements_extractor.py\<close> and \<^verbatim>\<open>Application_extractor.py\<close>.

  \<^item> A \<^verbatim>\<open>datetime.date\<close> is its proleptic Gregorian ordinal (\<^verbatim>\<open>date.toordinal()\<close>), an
    \<open>int\<close> between 1 (0001-01-01) and 3652059 (9999-12-31). Comparison of dates is
    comparison of ordinals, \<^verbatim>\<open>d + timedelta(days=1)\<close> is \<open>d + 1\<close> and raises
    \<^verbatim>\<open>OverflowError\<close> beyond 9999-12-31, \<^verbatim>\<open>(a - b).days\<close> is \<open>a - b\<close>.
  \<^item> A Python \<^verbatim>\<open>float\<close> is an exact rational: sums, comparisons and divisions are
    those of \<open>rat\<close>, and \<^verbatim>\<open>round(x, 2)\<close> is rounding to the nearest hundredth, ties to
    the even neighbour.
  \<^item> A \<^verbatim>\<open>dict\<close> is an association list with distinct keys in insertion order;
    \<^verbatim>\<open>d[k] = v\<close> is \<open>AList.update\<close>, which overwrites in place or appends.
  \<^item> An exception is a value \<open>Inl e\<close> of the result type.
\<close>

datatype pyerror = OverflowError | KeyError | ValueError | StatisticsError

type_synonym pydate = int

definition MAXORDINAL :: int where
  "MAXORDINAL = 3652059"

text \<open>\<^verbatim>\<open>d + timedelta(days=1)\<close>\<close>

definition add_one_day :: "pydate \<Rightarrow> pyerror + pydate" where
  "add_one_day d = (if d + 1 > MAXORDINAL then Inl OverflowError else Inr (d + 1))"

section \<open>Strings and numbers\<close>

text \<open>
  A Python \<^verbatim>\<open>str\<close> is a \<open>string\<close>; a \<open>char\<close> stands for a code point below 256.
  \<^verbatim>\<open>str.lower\<close> maps the capital letters of that range (A-Z, and U+00C0-U+00DE except the
  multiplication sign U+00D7) to the letter 32 code points higher. \<^verbatim>\<open>str.upper\<close> is
  modelled on a-z; the sources compare its result with ASCII words only.
\<close>

definition lower_char :: "char \<Rightarrow> char" where
  "lower_char c =
     (let n = (of_char c :: nat)
      in if (65 \<le> n \<and> n \<le> 90) \<or> (192 \<le> n \<and> n \<le> 222 \<and> n \<noteq> 215)
         then char_of (n + 32) else c)"

definition upper_char :: "char \<Rightarrow> char" where
  "upper_char c =
     (let n = (of_char c :: nat)
      in if 97 \<le> n \<and> n \<le> 122 then char_of (n - 32) else c)"

definition py_lower :: "string \<Rightarrow> string" where
  "py_lower s = map lower_char s"


text \<open>\<^verbatim>\<open>s.startswith(p)\<close> and the substring test \<^verbatim>\<open>sub in s\<close>.\<close>

fun starts_with :: "string \<Rightarrow> string \<Rightarrow> bool" where
  "starts_with s [] = True"
| "starts_with [] (p # ps) = False"
| "starts_with (c # cs) (p # ps) = (c = p \<and> starts_with cs ps)"

fun str_in :: "string \<Rightarrow> string \<Rightarrow> bool" where
  "str_in sub [] = (sub = [])"
| "str_in sub (c # cs) = (starts_with (c # cs) sub \<or> str_in sub cs)"

text \<open>\<^verbatim>\<open>sep.join(parts)\<close>\<close>

fun join :: "string \<Rightarrow> string list \<Rightarrow> string" where
  "join sep [] = []"
| "join sep [x] = x"
| "join sep (x # y # ys) = x @ sep @ join sep (y # ys)"

text \<open>
  \<^verbatim>\<open>round(x)\<close> and \<^verbatim>\<open>round(x, nd)\<close>: to the nearest, a tie going to the even neighbour.
\<close>

definition round_half_even :: "rat \<Rightarrow> int" where
  "round_half_even x =
     (let f = \<lfloor>x\<rfloor>; r = x - of_int f
      in if r < 1 / 2 then f
         else if 1 / 2 < r then f + 1
         else if even f then f else f + 1)"

definition py_round :: "nat \<Rightarrow> rat \<Rightarrow> rat" where
  "py_round nd x = of_int (round_half_even (x * 10 ^ nd)) / 10 ^ nd"

text \<open>Decimal digits of a natural number, and the format \<^verbatim>\<open>{n:0wd}\<close> of an integer.\<close>

definition digit_char :: "nat \<Rightarrow> char" where
  "digit_char n = char_of (48 + n mod 10)"

fun nat_digits :: "nat \<Rightarrow> string" where
  "nat_digits n = (if n < 10 then [digit_char n] else nat_digits (n div 10) @ [digit_char n])"

declare nat_digits.simps [simp del]

definition zfill :: "nat \<Rightarrow> string \<Rightarrow> string" where
  "zfill w s = replicate (w - length s) (CHR ''0'') @ s"

definition fmt_0d :: "nat \<Rightarrow> int \<Rightarrow> string" where
  "fmt_0d w n =
     (if n < 0 then CHR ''-'' # zfill (w - 1) (nat_digits (nat (- n)))
      else zfill w (nat_digits (nat n)))"

text \<open>
  The calendar fields of a date, computed from its ordinal the way CPython's
  \<^verbatim>\<open>datetime._ord2ymd\<close> does.
\<close>

definition DAYS_BEFORE_MONTH :: "int list" where
  "DAYS_BEFORE_MONTH = [- 1, 0, 31, 59, 90, 120, 151, 181, 212, 243, 273, 304, 334]"

definition DAYS_IN_MONTH :: "int list" where
  "DAYS_IN_MONTH = [- 1, 31, 28, 31, 30, 31, 30, 31, 31, 30, 31, 30, 31]"

definition month_and_day :: "int \<Rightarrow> bool \<Rightarrow> int \<Rightarrow> int \<times> int \<times> int" where
  "month_and_day year leapyear n =
     (let month = (n + 50) div 32;
          preceding = DAYS_BEFORE_MONTH ! nat month
                        + (if month > 2 \<and> leapyear then 1 else 0)
      in if preceding > n
         then (let month' = month - 1;
                   preceding' = preceding - (DAYS_IN_MONTH ! nat month'
                                  + (if month' = 2 \<and> leapyear then 1 else 0))
               in (year, month', n - preceding' + 1))
         else (year, month, n - preceding + 1))"

definition ord2ymd :: "pydate \<Rightarrow> int \<times> int \<times> int" where
  "ord2ymd ordinal =
     (let n0 = ordinal - 1;
          n400 = n0 div 146097; na = n0 mod 146097;
          n100 = na div 36524; nb = na mod 36524;
          n4 = nb div 1461; nc = nb mod 1461;
          n1 = nc div 365; n = nc mod 365;
          year = n400 * 400 + 1 + n100 * 100 + n4 * 4 + n1
      in if n1 = 4 \<or> n100 = 4 then (year - 1, 12, 31)
         else month_and_day year (n1 = 3 \<and> (n4 \<noteq> 24 \<or> n100 = 3)) n)"

definition year_of :: "pydate \<Rightarrow> int" where
  "year_of d = fst (ord2ymd d)"

definition month_of :: "pydate \<Rightarrow> int" where
  "month_of d = fst (snd (ord2ymd d))"

section \<open>Regular expressions\<close>

text \<open>
  The sources search their texts with Python's \<^verbatim>\<open>re\<close> module. The patterns are embedded
  as values of the datatype \<open>rx\<close> and run by a backtracking matcher that tries the
  alternatives in the order \<^verbatim>\<open>re\<close> tries them: the left branch of \<^verbatim>\<open>|\<close> first, a greedy
  repetition longest first, a lazy one shortest first. \<open>match\<close> returns the states reached
  after the pattern, best first; the head of the list is the match that \<^verbatim>\<open>re\<close> reports.
  No pattern of the sources can match the empty string, and every body of a repetition
  consumes a character.

  The character classes are those of \<^verbatim>\<open>re\<close> on \<^verbatim>\<open>str\<close> for code points below 256.
\<close>

definition is_digit :: "char \<Rightarrow> bool" where
  "is_digit c = (let n = (of_char c :: nat) in 48 \<le> n \<and> n \<le> 57)"

definition is_space :: "char \<Rightarrow> bool" where
  "is_space c =
     (let n = (of_char c :: nat)
      in (9 \<le> n \<and> n \<le> 13) \<or> (28 \<le> n \<and> n \<le> 32) \<or> n = 133 \<or> n = 160)"

definition is_word :: "char \<Rightarrow> bool" where
  "is_word c =
     (let n = (of_char c :: nat)
      in (48 \<le> n \<and> n \<le> 57) \<or> (65 \<le> n \<and> n \<le> 90) \<or> n = 95 \<or> (97 \<le> n \<and> n \<le> 122)
         \<or> n = 170 \<or> n = 178 \<or> n = 179 \<or> n = 181 \<or> n = 185 \<or> n = 186
         \<or> n = 188 \<or> n = 189 \<or> n = 190
         \<or> (192 \<le> n \<and> n \<le> 214) \<or> (216 \<le> n \<and> n \<le> 246) \<or> 248 \<le> n)"

definition in_range :: "char \<Rightarrow> char \<Rightarrow> char \<Rightarrow> bool" where
  "in_range lo hi c = ((of_char lo :: nat) \<le> of_char c \<and> (of_char c :: nat) \<le> of_char hi)"

datatype cls = Lit char | Range char char | Digit | Space | Word | Dot

text \<open>The first argument is the flag \<^verbatim>\<open>re.I\<close>.\<close>

fun cls_match :: "bool \<Rightarrow> cls \<Rightarrow> char \<Rightarrow> bool" where
  "cls_match ic (Lit a) c = (c = a \<or> (ic \<and> lower_char c = lower_char a))"
| "cls_match ic (Range lo hi) c =
     (in_range lo hi c
      \<or> (ic \<and> (in_range lo hi (lower_char c) \<or> in_range lo hi (upper_char c))))"
| "cls_match ic Digit c = is_digit c"
| "cls_match ic Space c = is_space c"
| "cls_match ic Word c = is_word c"
| "cls_match ic Dot c = (c \<noteq> CHR 0x0A)"

datatype rx =
    Cls bool "cls list"
  | Eps
  | Seq rx rx
  | Alt rx rx
  | Rep bool nat "nat option" rx
  | Grp nat rx
  | WordB
  | Bol
  | Eol

text \<open>
  \<open>Cls neg items\<close> is a class \<^verbatim>\<open>[...]\<close> (\<^verbatim>\<open>[^...]\<close> when \<open>neg\<close>); \<open>Rep greedy lo hi r\<close> is
  \<^verbatim>\<open>r{lo,hi}\<close>, lazy when \<open>greedy\<close> is false; \<open>Grp k r\<close> is the \<open>k\<close>-th capturing group;
  \<open>WordB\<close>, \<open>Bol\<close>, \<open>Eol\<close> are \<^verbatim>\<open>\b\<close>, \<^verbatim>\<open>^\<close>, \<^verbatim>\<open>$\<close>.

  A matcher state: the text before the position, reversed; the text from the position
  on; the groups captured so far, latest first.
\<close>

type_synonym mstate = "string \<times> string \<times> (nat \<times> string) list"

definition at_word_boundary :: "string \<Rightarrow> string \<Rightarrow> bool" where
  "at_word_boundary pre rest =
     ((case pre of [] \<Rightarrow> False | b # bs \<Rightarrow> is_word b)
      \<noteq> (case rest of [] \<Rightarrow> False | c # cs \<Rightarrow> is_word c))"

primrec rep_loop ::
  "(mstate \<Rightarrow> mstate list) \<Rightarrow> bool \<Rightarrow> nat \<Rightarrow> nat \<Rightarrow> nat option \<Rightarrow> mstate \<Rightarrow> mstate list" where
  "rep_loop m greedy 0 lo hi st = (if lo = 0 then [st] else [])"
| "rep_loop m greedy (Suc fuel) lo hi st =
     (let more = (if hi = Some 0 then []
                  else concat (map (rep_loop m greedy fuel (lo - 1) (map_option (\<lambda>h. h - 1) hi))
                                 (filter (\<lambda>st'. length (fst (snd st')) < length (fst (snd st)))
                                    (m st))));
          stop = (if lo = 0 then [st] else [])
      in if greedy then more @ stop else stop @ more)"

primrec match :: "bool \<Rightarrow> rx \<Rightarrow> mstate \<Rightarrow> mstate list" where
  "match ic (Cls neg items) =
     (\<lambda>st. case st of (pre, rest, caps) \<Rightarrow>
        (case rest of
           [] \<Rightarrow> []
         | c # cs \<Rightarrow> if list_ex (\<lambda>i. cls_match ic i c) items \<noteq> neg
                      then [(c # pre, cs, caps)] else []))"
| "match ic Eps = (\<lambda>st. [st])"
| "match ic (Seq r1 r2) = (\<lambda>st. concat (map (match ic r2) (match ic r1 st)))"
| "match ic (Alt r1 r2) = (\<lambda>st. match ic r1 st @ match ic r2 st)"
| "match ic (Rep greedy lo hi r) =
     (\<lambda>st. rep_loop (match ic r) greedy (length (fst (snd st))) lo hi st)"
| "match ic (Grp k r) =
     (\<lambda>st. map (\<lambda>st'. case st' of (pre', rest', caps') \<Rightarrow>
                   (pre', rest',
                    (k, take (length (fst (snd st)) - length rest') (fst (snd st))) # caps'))
               (match ic r st))"
| "match ic WordB =
     (\<lambda>st. case st of (pre, rest, caps) \<Rightarrow>
        if at_word_boundary pre rest then [st] else [])"
| "match ic Bol = (\<lambda>st. case st of (pre, rest, caps) \<Rightarrow> if pre = [] then [st] else [])"
| "match ic Eol =
     (\<lambda>st. case st of (pre, rest, caps) \<Rightarrow>
        if rest = [] \<or> rest = [CHR 0x0A] then [st] else [])"

text \<open>
  A match object: the text before the match (reversed), the matched text \<^verbatim>\<open>m.group(0)\<close>,
  the text after it, and the groups.
\<close>

record rmatch =
  m_before :: string
  m_text :: string
  m_after :: string
  m_groups :: "(nat \<times> string) list"

text \<open>\<^verbatim>\<open>m.group(k)\<close>; a group that took no part in the match is \<^verbatim>\<open>None\<close>.\<close>

definition group :: "rmatch \<Rightarrow> nat \<Rightarrow> string option" where
  "group m k = map_of (m_groups m) k"

text \<open>The match of the pattern that starts at the current position, if there is one.\<close>

definition match_here :: "bool \<Rightarrow> rx \<Rightarrow> string \<Rightarrow> string \<Rightarrow> rmatch option" where
  "match_here ic r pre rest =
     (case match ic r (pre, rest, []) of
        [] \<Rightarrow> None
      | (pre', rest', caps) # others \<Rightarrow>
          Some \<lparr>m_before = pre, m_text = take (length rest - length rest') rest,
                m_after = rest', m_groups = caps\<rparr>)"

text \<open>\<^verbatim>\<open>re.search\<close>: the match at the leftmost position that has one.\<close>

fun search_from :: "bool \<Rightarrow> rx \<Rightarrow> string \<Rightarrow> string \<Rightarrow> rmatch option" where
  "search_from ic r pre [] = match_here ic r pre []"
| "search_from ic r pre (c # cs) =
     (case match_here ic r pre (c # cs) of
        Some m \<Rightarrow> Some m
      | None \<Rightarrow> search_from ic r (c # pre) cs)"

definition re_search :: "bool \<Rightarrow> rx \<Rightarrow> string \<Rightarrow> rmatch option" where
  "re_search ic r s = search_from ic r [] s"

text \<open>\<^verbatim>\<open>re.match\<close>: the match at the start of the text.\<close>

definition re_match :: "bool \<Rightarrow> rx \<Rightarrow> string \<Rightarrow> rmatch option" where
  "re_match ic r s = match_here ic r [] s"

text \<open>
  \<^verbatim>\<open>re.finditer\<close>: the matches from left to right, each search resuming where the match
  before it ended. \<open>skip\<close> counts the characters of the last match still to step over.
\<close>

fun finditer_from :: "bool \<Rightarrow> rx \<Rightarrow> nat \<Rightarrow> string \<Rightarrow> string \<Rightarrow> rmatch list" where
  "finditer_from ic r skip pre [] =
     (if skip = 0 then (case match_here ic r pre [] of Some m \<Rightarrow> [m] | None \<Rightarrow> []) else [])"
| "finditer_from ic r skip pre (c # cs) =
     (if 0 < skip then finditer_from ic r (skip - 1) (c # pre) cs
      else (case match_here ic r pre (c # cs) of
              None \<Rightarrow> finditer_from ic r 0 (c # pre) cs
            | Some m \<Rightarrow> m # finditer_from ic r (length (m_text m) - 1) (c # pre) cs))"

definition re_finditer :: "bool \<Rightarrow> rx \<Rightarrow> string \<Rightarrow> rmatch list" where
  "re_finditer ic r s = finditer_from ic r 0 [] s"

text \<open>\<^verbatim>\<open>re.sub(pattern, repl, s)\<close> with a replacement text without group references.\<close>

fun sub_from :: "bool \<Rightarrow> rx \<Rightarrow> string \<Rightarrow> nat \<Rightarrow> string \<Rightarrow> string \<Rightarrow> string" where
  "sub_from ic r repl skip pre [] = []"
| "sub_from ic r repl skip pre (c # cs) =
     (if 0 < skip then sub_from ic r repl (skip - 1) (c # pre) cs
      else (case match_here ic r pre (c # cs) of
              None \<Rightarrow> c # sub_from ic r repl 0 (c # pre) cs
            | Some m \<Rightarrow> repl @ sub_from ic r repl (length (m_text m) - 1) (c # pre) cs))"

definition re_sub :: "bool \<Rightarrow> rx \<Rightarrow> string \<Rightarrow> string \<Rightarrow> string" where
  "re_sub ic r repl s = sub_from ic r repl 0 [] s"

text \<open>Abbreviations to write patterns down.\<close>

fun seqs :: "rx list \<Rightarrow> rx" where
  "seqs [] = Eps"
| "seqs [r] = r"
| "seqs (r # rs) = Seq r (seqs rs)"

fun alts :: "rx list \<Rightarrow> rx" where
  "alts [] = Cls False []"
| "alts [r] = r"
| "alts (r # rs) = Alt r (alts rs)"

definition lit :: "string \<Rightarrow> rx" where
  "lit s = seqs (map (\<lambda>c. Cls False [Lit c]) s)"

definition rx_star :: "rx \<Rightarrow> rx" where
  "rx_star r = Rep True 0 None r"

definition rx_plus :: "rx \<Rightarrow> rx" where
  "rx_plus r = Rep True 1 None r"

definition rx_opt :: "rx \<Rightarrow> rx" where
  "rx_opt r = Rep True 0 (Some 1) r"

definition rx_times :: "nat \<Rightarrow> nat \<Rightarrow> rx \<Rightarrow> rx" where
  "rx_times lo hi r = Rep True lo (Some hi) r"

definition rx_at_least :: "nat \<Rightarrow> rx \<Rightarrow> rx" where
  "rx_at_least lo r = Rep True lo None r"

definition rx_digit :: rx where
  "rx_digit = Cls False [Digit]"

definition rx_space :: rx where
  "rx_space = Cls False [Space]"

text \<open>\<^verbatim>\<open>s.split()\<close>: the maximal runs of characters that are not white space.\<close>

fun split_ws :: "string \<Rightarrow> string \<Rightarrow> string list" where
  "split_ws cur [] = (if cur = [] then [] else [rev cur])"
| "split_ws cur (c # cs) =
     (if is_space c then (if cur = [] then split_ws [] cs else rev cur # split_ws [] cs)
      else split_ws (c # cur) cs)"

definition py_split :: "string \<Rightarrow> string list" where
  "py_split s = split_ws [] s"

section \<open>Statements: the data model\<close>

record Txn =
  dt :: pydate
  desc :: string
  amount :: rat
  runbal :: "rat option"

text \<open>A statement period as \<^verbatim>\<open>month_from_period\<close> returns it: (label, first day, last day).\<close>

type_synonym period = "string \<times> pydate \<times> pydate"

text \<open>\<^verbatim>\<open>d[k].append(v)\<close> on a \<^verbatim>\<open>defaultdict(list)\<close>.\<close>

definition dd_append :: "'k \<Rightarrow> 'v \<Rightarrow> ('k \<times> 'v list) list \<Rightarrow> ('k \<times> 'v list) list" where
  "dd_append k v d =
     (case map_of d k of
        None \<Rightarrow> AList.update k [v] d
      | Some vs \<Rightarrow> AList.update k (vs @ [v]) d)"

section \<open>Statements: daily balances\<close>

text \<open>\<^verbatim>\<open>for t in txns: by_day[t.dt].append(t)\<close>\<close>

definition group_by_day :: "Txn list \<Rightarrow> (pydate \<times> Txn list) list" where
  "group_by_day txns = foldl (\<lambda>by_day t. dd_append (dt t) t by_day) [] txns"

text \<open>\<^verbatim>\<open>for t in by_day[d]: bal += t.amount\<close>\<close>

definition apply_day :: "rat \<Rightarrow> Txn list \<Rightarrow> rat" where
  "apply_day bal ts = foldl (\<lambda>b t. b + amount t) bal ts"

text \<open>
  The \<^verbatim>\<open>while d <= d2\<close> loop of \<^verbatim>\<open>rebuild_daily_balances\<close>; the state is the current day,
  the running balance and the mapping built so far.
\<close>

function walk_days ::
  "(pydate \<times> Txn list) list \<Rightarrow> pydate \<Rightarrow> pydate \<Rightarrow> rat \<Rightarrow> (pydate \<times> rat) list
     \<Rightarrow> pyerror + (pydate \<times> rat) list" where
  "walk_days by_day d d2 bal daily =
     (if d \<le> d2 then
        (let bal' = (case map_of by_day d of Some ts \<Rightarrow> apply_day bal ts | None \<Rightarrow> bal);
             daily' = AList.update d bal' daily
         in case add_one_day d of
              Inl e \<Rightarrow> Inl e
            | Inr d' \<Rightarrow> walk_days by_day d' d2 bal' daily')
      else Inr daily)"
  by pat_completeness auto
termination
  by (relation "measure (\<lambda>(by_day, d, d2, bal, daily). nat (d2 + 1 - d))")
     (auto simp: add_one_day_def split: if_splits)

declare walk_days.simps [simp del]

definition min_dt :: "Txn \<Rightarrow> Txn list \<Rightarrow> pydate" where
  "min_dt t ts = fold min (map dt ts) (dt t)"

definition max_dt :: "Txn \<Rightarrow> Txn list \<Rightarrow> pydate" where
  "max_dt t ts = fold max (map dt ts) (dt t)"

definition rebuild_daily_balances ::
  "Txn list \<Rightarrow> rat option \<Rightarrow> period option \<Rightarrow> pyerror + (pydate \<times> rat) list" where
  "rebuild_daily_balances txns opening_balance period =
     (case txns of
        [] \<Rightarrow> Inr []
      | t # ts \<Rightarrow>
          (let (d1, d2) = (case period of
                             Some (lbl, p1, p2) \<Rightarrow> (p1, p2)
                           | None \<Rightarrow> (min_dt t ts, max_dt t ts));
               by_day = group_by_day txns;
               bal = (case opening_balance of Some b \<Rightarrow> b | None \<Rightarrow> 0)
           in walk_days by_day d1 d2 bal []))"

definition count_negative_days :: "(pydate \<times> rat) list \<Rightarrow> nat" where
  "count_negative_days daily = length (filter (\<lambda>v. v < 0) (map snd daily))"

text \<open>The mapping's keys in insertion order, and the lookup \<^verbatim>\<open>daily[d]\<close>.\<close>

definition keys_of :: "('k \<times> 'v) list \<Rightarrow> 'k list" where
  "keys_of d = map fst d"

definition negative_ending_days :: "Txn list \<Rightarrow> rat option \<Rightarrow> period option \<Rightarrow> pyerror + nat" where
  "negative_ending_days txns opening_balance period =
     (case rebuild_daily_balances txns opening_balance period of
        Inl e \<Rightarrow> Inl e
      | Inr daily \<Rightarrow> Inr (count_negative_days daily))"

definition opening_or_zero :: "rat option \<Rightarrow> rat" where
  "opening_or_zero ob = (case ob of Some b \<Rightarrow> b | None \<Rightarrow> 0)"


text \<open>The sum of the amounts booked on one day.\<close>

definition day_total :: "(pydate \<times> Txn list) list \<Rightarrow> pydate \<Rightarrow> rat" where
  "day_total by_day d = (case map_of by_day d of Some ts \<Rightarrow> sum_list (map amount ts) | None \<Rightarrow> 0)"

section \<open>Statements: monthly counts, deposits and revenue\<close>

definition EXCLUDE_DEPOSIT_KEYWORDS :: "string list" where
  "EXCLUDE_DEPOSIT_KEYWORDS = [''zelle'', ''zelle'' @ [char_of (174::nat)]]"

definition month_key :: "pydate \<Rightarrow> string" where
  "month_key d = fmt_0d 4 (year_of d) @ ''-'' @ fmt_0d 2 (month_of d)"

text \<open>\<^verbatim>\<open>d.get(k, 0)\<close>, and \<^verbatim>\<open>d[k] += v\<close> on a \<^verbatim>\<open>defaultdict\<close> whose default is zero.\<close>

definition dict_get0 :: "('k \<times> 'v::zero) list \<Rightarrow> 'k \<Rightarrow> 'v" where
  "dict_get0 d k = (case map_of d k of None \<Rightarrow> 0 | Some v \<Rightarrow> v)"

definition dd_add :: "'k \<Rightarrow> 'v::{zero,plus} \<Rightarrow> ('k \<times> 'v) list \<Rightarrow> ('k \<times> 'v) list" where
  "dd_add k v d = AList.update k (dict_get0 d k + v) d"

definition excluded_deposit :: "string \<Rightarrow> bool" where
  "excluded_deposit description =
     list_ex (\<lambda>x. str_in x (py_lower description)) EXCLUDE_DEPOSIT_KEYWORDS"

type_synonym monthly =
  "(string \<times> int) list \<times> (string \<times> int) list \<times> (string \<times> rat) list"

text \<open>The body of the loop \<^verbatim>\<open>for t in txns\<close> of \<^verbatim>\<open>compute_monthly_counts_and_deposits\<close>.\<close>

definition count_txn :: "monthly \<Rightarrow> Txn \<Rightarrow> monthly" where
  "count_txn acc t =
     (case acc of (debit_counts, credit_counts, monthly_deposits) \<Rightarrow>
        (let k = month_key (dt t)
         in if amount t < 0 then (dd_add k 1 debit_counts, credit_counts, monthly_deposits)
            else if 0 < amount t then
              (if \<not> excluded_deposit (desc t)
               then (debit_counts, dd_add k 1 credit_counts, dd_add k (amount t) monthly_deposits)
               else (debit_counts, dd_add k 1 credit_counts, monthly_deposits))
            else (debit_counts, credit_counts, monthly_deposits)))"

definition compute_monthly_counts_and_deposits :: "Txn list \<Rightarrow> monthly" where
  "compute_monthly_counts_and_deposits txns = foldl count_txn ([], [], []) txns"

definition debit_count :: "Txn list \<Rightarrow> string \<Rightarrow> int" where
  "debit_count txns k = dict_get0 (fst (compute_monthly_counts_and_deposits txns)) k"

definition credit_count :: "Txn list \<Rightarrow> string \<Rightarrow> int" where
  "credit_count txns k = dict_get0 (fst (snd (compute_monthly_counts_and_deposits txns))) k"

definition deposit_total :: "Txn list \<Rightarrow> string \<Rightarrow> rat" where
  "deposit_total txns k = dict_get0 (snd (snd (compute_monthly_counts_and_deposits txns))) k"

text \<open>The transactions of month \<open>k\<close>.\<close>

definition in_month :: "string \<Rightarrow> Txn list \<Rightarrow> Txn list" where
  "in_month k txns = filter (\<lambda>t. month_key (dt t) = k) txns"




section \<open>Applications: the field resolver\<close>

text \<open>
  What a window extractor returns: a string (\<^verbatim>\<open>extract_fico\<close>, the state, the business
  name, the industry) or the pair (months, years) of \<^verbatim>\<open>parse_tib_value_strict\<close>; Python's
  \<^verbatim>\<open>None\<close> is \<open>None\<close>. \<open>truthy\<close> is Python's truth value: an empty string is false, a
  pair is true.
\<close>

datatype pyval = Str string | Pair rat rat

fun truthy :: "pyval option \<Rightarrow> bool" where
  "truthy None = False"
| "truthy (Some (Str s)) = (s \<noteq> [])"
| "truthy (Some (Pair m y)) = True"

text \<open>\<^verbatim>\<open>a or b\<close>\<close>

definition py_or :: "pyval option \<Rightarrow> pyval option \<Rightarrow> pyval option" where
  "py_or a b = (if truthy a then a else b)"

record FieldResult =
  fvalue :: "pyval option"
  confidence :: rat
  evidence :: "(string \<times> string) list"

definition ANCHORS :: "(string \<times> string list) list" where
  "ANCHORS =
     [(''business_name'',
        [''legal business name'', ''business legal name'', ''business name'', ''company name'',
         ''corporate name'', ''dba'', ''doing business as'', ''trade name'',
         ''legal name of business'', ''name of business'', ''business d/b/a name'',
         ''business dba name'', ''business d / b / a name'']),
      (''state'',
        [''state'', ''state/province'', ''business address'', ''company address'',
         ''mailing address'', ''principal address'', ''city, state'', ''address'']),
      (''industry'',
        [''industry'', ''business type'', ''naics'', ''sic'', ''primary industry'',
         ''type of business'', ''line of business'', ''nature of business'', ''sector'']),
      (''tib'',
        [''time in business'', ''years in business'', ''length of ownership'', ''owner since'',
         ''date business started'', ''business start date'', ''established'', ''since'',
         ''in business since'', ''ownership since'']),
      (''fico'',
        [''fico'', ''credit score'', ''personal fico'', ''owner fico'', ''beacon score''])]"

text \<open>
  \<^verbatim>\<open>best_anchor_hits_local\<close>. The similarity \<^verbatim>\<open>fuzz.partial_ratio\<close> of the rapidfuzz
  library is the parameter \<open>partial_ratio\<close>. The sort is stable, by descending score and
  then by line index.
\<close>

type_synonym hit = "nat \<times> string \<times> rat"

definition best_anchor_hits_local ::
  "(string \<Rightarrow> string \<Rightarrow> rat) \<Rightarrow> string list \<Rightarrow> string list \<Rightarrow> hit list" where
  "best_anchor_hits_local partial_ratio lines_lower anchors =
     sort_key (\<lambda>(i, a, score). (- score, i))
       (concat (map (\<lambda>(i, ln).
                  map (\<lambda>a. (i, a, partial_ratio a ln))
                      (filter (\<lambda>a. 80 \<le> partial_ratio a ln) anchors))
                (List.enumerate 0 lines_lower)))"

text \<open>\<^verbatim>\<open>window(lines, idx, radius)\<close>: the lines \<open>idx - radius\<close> to \<open>idx + radius\<close>.\<close>

definition window :: "string list \<Rightarrow> nat \<Rightarrow> nat \<Rightarrow> string" where
  "window lines idx radius =
     (let s = nat (max 0 (int idx - int radius));
          e = min (length lines) (idx + radius + 1)
      in join '' | '' (take (e - s) (drop s lines)))"

definition empty_result :: FieldResult where
  "empty_result = \<lparr>fvalue = None, confidence = 0, evidence = []\<rparr>"

text \<open>\<^verbatim>\<open>" | ".join(lines[:60])\<close> and \<^verbatim>\<open>" | ".join(lines[-60:])\<close>\<close>

definition head_text :: "string list \<Rightarrow> string" where
  "head_text lines = join '' | '' (take 60 lines)"

definition tail_text :: "string list \<Rightarrow> string" where
  "tail_text lines = join '' | '' (drop (length lines - 60) lines)"

definition headtail_try :: "string list \<Rightarrow> (string \<Rightarrow> pyval option) \<Rightarrow> FieldResult" where
  "headtail_try lines extractor_fn =
     (let head = head_text lines;
          tail = tail_text lines;
          v = py_or (extractor_fn head) (extractor_fn tail)
      in if truthy v
         then \<lparr>fvalue = v, confidence = 45 / 100,
               evidence = [(''anchor'', ''global-fallback''), (''line'', ''(document head/tail)'')]\<rparr>
         else empty_result)"

text \<open>The body of the loop \<^verbatim>\<open>for (idx, anchor, score) in hits[:8]\<close>.\<close>

definition try_hit ::
  "string list \<Rightarrow> (string \<Rightarrow> pyval option) \<Rightarrow> rat \<Rightarrow> FieldResult \<Rightarrow> hit \<Rightarrow> FieldResult" where
  "try_hit lines extractor_fn conf_base best h =
     (case h of (idx, anchor, score) \<Rightarrow>
        (let win = window lines idx 2;
             v = extractor_fn win
         in if truthy v then
              (let conf = min (conf_base + (score / 100) * (35 / 100)) (98 / 100)
               in if confidence best < conf
                  then \<lparr>fvalue = v, confidence = py_round 2 conf,
                        evidence = [(''anchor'', anchor), (''line'', win)]\<rparr>
                  else best)
            else best))"

definition find_with_anchors ::
  "(string \<Rightarrow> string \<Rightarrow> rat) \<Rightarrow> string list \<Rightarrow> string list \<Rightarrow> string
     \<Rightarrow> (string \<times> string list) list \<Rightarrow> (string \<Rightarrow> pyval option) \<Rightarrow> rat
     \<Rightarrow> pyerror + FieldResult" where
  "find_with_anchors partial_ratio lines lines_lower field_key anchors extractor_fn conf_base =
     (case map_of anchors field_key of
        None \<Rightarrow> Inl KeyError
      | Some phrases \<Rightarrow>
          (let hits = best_anchor_hits_local partial_ratio lines_lower phrases;
               best = foldl (try_hit lines extractor_fn conf_base) empty_result (take 8 hits)
           in if \<not> truthy (fvalue best) then Inr (headtail_try lines extractor_fn)
              else Inr best))"

text \<open>
  The five calls of \<^verbatim>\<open>extract_fields_from_bytes\<close>: the key into \<^verbatim>\<open>ANCHORS\<close> and the
  \<^verbatim>\<open>conf_base\<close> of each field (0.6 is the default).
\<close>

datatype field = FICO | State | BusinessName | Industry | LengthOfOwnership

fun field_key :: "field \<Rightarrow> string" where
  "field_key FICO = ''fico''"
| "field_key State = ''state''"
| "field_key BusinessName = ''business_name''"
| "field_key Industry = ''industry''"
| "field_key LengthOfOwnership = ''tib''"

fun field_conf_base :: "field \<Rightarrow> rat" where
  "field_conf_base FICO = 6 / 10"
| "field_conf_base State = 62 / 100"
| "field_conf_base BusinessName = 72 / 100"
| "field_conf_base Industry = 55 / 100"
| "field_conf_base LengthOfOwnership = 6 / 10"

definition resolve_field ::
  "(string \<Rightarrow> string \<Rightarrow> rat) \<Rightarrow> string list \<Rightarrow> (string \<Rightarrow> pyval option) \<Rightarrow> field
     \<Rightarrow> pyerror + FieldResult" where
  "resolve_field partial_ratio lines extractor_fn f =
     find_with_anchors partial_ratio lines (map py_lower lines) (field_key f) ANCHORS
       extractor_fn (field_conf_base f)"

text \<open>The windows that the loop over the first eight hits hands to the extractor.\<close>

definition hit_windows ::
  "(string \<Rightarrow> string \<Rightarrow> rat) \<Rightarrow> string list \<Rightarrow> field \<Rightarrow> string list" where
  "hit_windows partial_ratio lines f =
     map (\<lambda>(idx, anchor, score). window lines idx 2)
       (take 8 (best_anchor_hits_local partial_ratio (map py_lower lines)
                  (case map_of ANCHORS (field_key f) of None \<Rightarrow> [] | Some p \<Rightarrow> p)))"

text \<open>
  The invariant of the resolver's loop: the best result so far is the empty result, or it
  holds a true value with a confidence between 0.28 and 0.98.
\<close>

definition result_ok :: "FieldResult \<Rightarrow> bool" where
  "result_ok r = (r = empty_result \<or>
      (truthy (fvalue r) \<and> 28 / 100 \<le> confidence r \<and> confidence r \<le> 98 / 100))"

section \<open>Statements: recurring positions\<close>

text \<open>
  \<^verbatim>\<open>_normalize_desc\<close>: lower case; runs of two or more white-space characters become one
  blank (pattern \<^verbatim>\<open>\s{2,}\<close>); stand-alone runs of four or more digits are removed (pattern
  \<^verbatim>\<open>\b\d{4,}\b\<close>); runs of the characters - / # * become one blank (pattern \<^verbatim>\<open>[-/#*]+\<close>);
  the words are joined again with single blanks.
\<close>

definition RE_SPACES2 :: rx where
  "RE_SPACES2 = rx_at_least 2 rx_space"

definition RE_LONG_NUMBER :: rx where
  "RE_LONG_NUMBER = seqs [WordB, rx_at_least 4 rx_digit, WordB]"

definition RE_SEPARATORS :: rx where
  "RE_SEPARATORS = rx_plus (Cls False [Lit (CHR ''-''), Lit (CHR ''/''), Lit (CHR ''#''), Lit (CHR ''*'')])"

definition normalize_desc :: "string \<Rightarrow> string" where
  "normalize_desc description =
     (let s = py_lower description;
          s = re_sub False RE_SPACES2 '' '' s;
          s = re_sub False RE_LONG_NUMBER '''' s;
          s = re_sub False RE_SEPARATORS '' '' s
      in join '' '' (py_split s))"

text \<open>The test \<^verbatim>\<open>len(n) < 4 or n in ("deposit","pos","ach","online transfer")\<close>.\<close>

definition skipped_name :: "string \<Rightarrow> bool" where
  "skipped_name n =
     (length n < 4 \<or> List.member [''deposit'', ''pos'', ''ach'', ''online transfer''] n)"

text \<open>The first loop of \<^verbatim>\<open>detect_positions\<close>.\<close>

definition group_txn :: "(string \<times> pydate list) list \<Rightarrow> Txn \<Rightarrow> (string \<times> pydate list) list" where
  "group_txn groups t =
     (let n = normalize_desc (desc t)
      in if skipped_name n then groups else dd_append n (dt t) groups)"

definition group_by_desc :: "Txn list \<Rightarrow> (string \<times> pydate list) list" where
  "group_by_desc txns = foldl group_txn [] txns"

text \<open>\<^verbatim>\<open>[(ds[i]-ds[i-1]).days for i in range(1, len(ds))]\<close>\<close>

definition day_gaps :: "pydate list \<Rightarrow> int list" where
  "day_gaps ds = map (\<lambda>i. ds ! i - ds ! (i - 1)) [1..<length ds]"

text \<open>\<^verbatim>\<open>statistics.median\<close>, which raises \<^verbatim>\<open>StatisticsError\<close> on an empty list.\<close>

definition median :: "int list \<Rightarrow> pyerror + rat" where
  "median xs =
     (let data = sort xs; n = length data
      in if n = 0 then Inl StatisticsError
         else if n mod 2 = 1 then Inr (of_int (data ! (n div 2)))
         else Inr ((of_int (data ! (n div 2 - 1)) + of_int (data ! (n div 2))) / 2))"

text \<open>The body of the loop \<^verbatim>\<open>for desc, ds in groups.items()\<close>.\<close>

definition classify_group ::
  "string list \<times> string list \<Rightarrow> string \<times> pydate list \<Rightarrow> pyerror + string list \<times> string list" where
  "classify_group acc item =
     (case acc of (daily, weekly) \<Rightarrow>
      case item of (description, ds0) \<Rightarrow>
        if length ds0 < 3 then Inr (daily, weekly)
        else
          (let ds = sort ds0;
               gaps = day_gaps ds
           in if gaps = [] then Inr (daily, weekly)
              else (case median gaps of
                      Inl e \<Rightarrow> Inl e
                    | Inr med \<Rightarrow>
                        if 8 / 10 \<le> med \<and> med \<le> 13 / 10 then Inr (daily @ [description], weekly)
                        else if 55 / 10 \<le> med \<and> med \<le> 85 / 10
                        then Inr (daily, weekly @ [description])
                        else Inr (daily, weekly))))"

fun classify_groups ::
  "string list \<times> string list \<Rightarrow> (string \<times> pydate list) list \<Rightarrow> pyerror + string list \<times> string list" where
  "classify_groups acc [] = Inr acc"
| "classify_groups acc (item # items) =
     (case classify_group acc item of
        Inl e \<Rightarrow> Inl e
      | Inr acc' \<Rightarrow> classify_groups acc' items)"

text \<open>\<^verbatim>\<open>lst = list(set(lst)); lst.sort(); return lst[:5]\<close>\<close>

definition topk :: "string list \<Rightarrow> string list" where
  "topk lst = take 5 (sort (remdups lst))"

definition detect_positions :: "Txn list \<Rightarrow> pyerror + string list \<times> string list" where
  "detect_positions txns =
     (case classify_groups ([], []) (group_by_desc txns) of
        Inl e \<Rightarrow> Inl e
      | Inr (daily, weekly) \<Rightarrow> Inr (topk daily, topk weekly))"

text \<open>
  The rule in the words of the specification. The dates of a normalized description;
  the median gap between consecutive sorted dates; a daily group has at least 3
  occurrences and a median gap in [0.8, 1.3], a weekly group one in [5.5, 8.5].
\<close>

definition dates_of :: "Txn list \<Rightarrow> string \<Rightarrow> pydate list" where
  "dates_of txns n = map dt (filter (\<lambda>t. normalize_desc (desc t) = n) txns)"

definition median_gap :: "pydate list \<Rightarrow> rat" where
  "median_gap ds = (case median (day_gaps (sort ds)) of Inr med \<Rightarrow> med | Inl e \<Rightarrow> 0)"

definition daily_name :: "Txn list \<Rightarrow> string \<Rightarrow> bool" where
  "daily_name txns n =
     (\<not> skipped_name n \<and> 3 \<le> length (dates_of txns n)
      \<and> 8 / 10 \<le> median_gap (dates_of txns n) \<and> median_gap (dates_of txns n) \<le> 13 / 10)"

definition weekly_name :: "Txn list \<Rightarrow> string \<Rightarrow> bool" where
  "weekly_name txns n =
     (\<not> skipped_name n \<and> 3 \<le> length (dates_of txns n)
      \<and> 55 / 10 \<le> median_gap (dates_of txns n) \<and> median_gap (dates_of txns n) \<le> 85 / 10)"

definition spec_detect_positions :: "Txn list \<Rightarrow> string list \<times> string list" where
  "spec_detect_positions txns =
     (let names = map (\<lambda>t. normalize_desc (desc t)) txns
      in (take 5 (sort (remdups (filter (daily_name txns) names))),
          take 5 (sort (remdups (filter (weekly_name txns) names)))))"

text \<open>The two tests of the classification loop, on an entry of the groups.\<close>

definition daily_item :: "string \<times> pydate list \<Rightarrow> bool" where
  "daily_item item = (3 \<le> length (snd item)
      \<and> 8 / 10 \<le> median_gap (snd item) \<and> median_gap (snd item) \<le> 13 / 10)"

definition weekly_item :: "string \<times> pydate list \<Rightarrow> bool" where
  "weekly_item item = (3 \<le> length (snd item)
      \<and> 55 / 10 \<le> median_gap (snd item) \<and> median_gap (snd item) \<le> 85 / 10)"

text \<open>
  Example statements: a payroll debit on four dates seven days apart; a card purchase on
  ten dates with gaps 2, 3, 11, 4, 3, 11, 2, 13, 15; the description ACH on four dates
  seven days apart.
\<close>

definition weekly_example :: "Txn list" where
  "weekly_example =
     [\<lparr>dt = 738886, desc = ''ACME PAYROLL 000123'', amount = - 900, runbal = None\<rparr>,
      \<lparr>dt = 738893, desc = ''ACME PAYROLL 000124'', amount = - 900, runbal = None\<rparr>,
      \<lparr>dt = 738900, desc = ''Acme Payroll'', amount = - 900, runbal = None\<rparr>,
      \<lparr>dt = 738907, desc = ''acme  payroll'', amount = - 900, runbal = None\<rparr>]"

definition irregular_example :: "Txn list" where
  "irregular_example =
     map (\<lambda>d. \<lparr>dt = d, desc = ''Card purchase'', amount = - 25, runbal = None\<rparr>)
       [738886, 738888, 738891, 738902, 738906, 738909, 738920, 738922, 738935, 738950]"

definition ach_example :: "Txn list" where
  "ach_example =
     map (\<lambda>d. \<lparr>dt = d, desc = ''ACH'', amount = - 25, runbal = None\<rparr>)
       [738886, 738893, 738900, 738907]"

section \<open>Applications: time in business\<close>

text \<open>
  \<^verbatim>\<open>parse_tib_value_strict\<close> reads the clock and calls the date parser of the dateutil
  library. Both are parameters of the model: \<open>today\<close> is the ordinal of the date of
  \<^verbatim>\<open>datetime.now()\<close>, and \<open>dateparse raw\<close> is the date that
  \<^verbatim>\<open>dateparser.parse(raw, dayfirst=False, fuzzy=True)\<close> returns, or \<open>None\<close> when it raises.
  The texts handed to the parser hold a date without a time of day, so a parsed date is
  at most \<^verbatim>\<open>datetime.now()\<close> exactly when its ordinal is at most \<open>today\<close>, and the
  \<^verbatim>\<open>.days\<close> of the difference is the difference of the ordinals.
\<close>

definition TIB_KEYWORDS :: "string list" where
  "TIB_KEYWORDS =
     [''time in business'', ''years in business'', ''length of ownership'', ''owner since'',
      ''date business started'', ''business start date'', ''established'', ''since'',
      ''in business since'', ''ownership since'']"

definition rx_word :: rx where
  "rx_word = Cls False [Word]"

definition rx_letter :: rx where
  "rx_letter = Cls False [Range (CHR ''A'') (CHR ''Z''), Range (CHR ''a'') (CHR ''z'')]"

text \<open>\<^verbatim>\<open>(?:yrs?|years?)\<close> and \<^verbatim>\<open>(?:mos?|months?)\<close>\<close>

definition YEARS_WORD :: rx where
  "YEARS_WORD = Alt (Seq (lit ''yr'') (rx_opt (lit ''s''))) (Seq (lit ''year'') (rx_opt (lit ''s'')))"

definition MONTHS_WORD :: rx where
  "MONTHS_WORD = Alt (Seq (lit ''mo'') (rx_opt (lit ''s''))) (Seq (lit ''month'') (rx_opt (lit ''s'')))"

text \<open>\<^verbatim>\<open>\b(\d{1,2}(?:\.\d{1,2})?)\s*(?:yrs?|years?)\b\<close>, with \<^verbatim>\<open>re.I\<close>\<close>

definition RE_YEARS_NUM :: rx where
  "RE_YEARS_NUM =
     seqs [WordB,
           Grp 1 (Seq (rx_times 1 2 rx_digit) (rx_opt (Seq (lit ''.'') (rx_times 1 2 rx_digit)))),
           rx_star rx_space, YEARS_WORD, WordB]"

text \<open>\<^verbatim>\<open>\b(\d{1,2})\s*(?:yrs?|years?)\s*(\d{1,2})\s*(?:mos?|months?)\b\<close>, with \<^verbatim>\<open>re.I\<close>\<close>

definition RE_YEARS_MONTHS :: rx where
  "RE_YEARS_MONTHS =
     seqs [WordB, Grp 1 (rx_times 1 2 rx_digit), rx_star rx_space, YEARS_WORD, rx_star rx_space,
           Grp 2 (rx_times 1 2 rx_digit), rx_star rx_space, MONTHS_WORD, WordB]"

text \<open>\<^verbatim>\<open>\b(\d{1,3}(?:\.\d{1,2})?)\s*(?:mos?|months?)\b\<close>, with \<^verbatim>\<open>re.I\<close>\<close>

definition RE_MONTHS_ONLY :: rx where
  "RE_MONTHS_ONLY =
     seqs [WordB,
           Grp 1 (Seq (rx_times 1 3 rx_digit) (rx_opt (Seq (lit ''.'') (rx_times 1 2 rx_digit)))),
           rx_star rx_space, MONTHS_WORD, WordB]"

text \<open>\<^verbatim>\<open>\b(\d{1,2}[/\-]\d{1,2}[/\-]\d{2,4}|[A-Za-z]{3,9}\s+\d{1,2},\s*\d{2,4})\b\<close>\<close>

definition rx_slash_or_dash :: rx where
  "rx_slash_or_dash = Cls False [Lit (CHR ''/''), Lit (CHR ''-'')]"

definition RE_DATE :: rx where
  "RE_DATE =
     seqs [WordB,
           Grp 1 (Alt (seqs [rx_times 1 2 rx_digit, rx_slash_or_dash, rx_times 1 2 rx_digit,
                             rx_slash_or_dash, rx_times 2 4 rx_digit])
                      (seqs [rx_times 3 9 rx_letter, rx_plus rx_space, rx_times 1 2 rx_digit,
                             lit '','', rx_star rx_space, rx_times 2 4 rx_digit])),
           WordB]"

text \<open>\<^verbatim>\<open>(estab\w*|since|started)\s*(?:in\s*)?(\d{4})\<close>, with \<^verbatim>\<open>re.I\<close>\<close>

definition RE_FOUNDING_YEAR :: rx where
  "RE_FOUNDING_YEAR =
     seqs [Grp 1 (alts [Seq (lit ''estab'') (rx_star rx_word), lit ''since'', lit ''started'']),
           rx_star rx_space, rx_opt (Seq (lit ''in'') (rx_star rx_space)),
           Grp 2 (rx_times 4 4 rx_digit)]"

text \<open>\<^verbatim>\<open>int(s)\<close> and \<^verbatim>\<open>float(s)\<close> on the digit strings that the groups capture.\<close>

definition parse_nat :: "string \<Rightarrow> nat" where
  "parse_nat s = foldl (\<lambda>n c. 10 * n + (of_char c - 48)) 0 s"

definition parse_decimal :: "string \<Rightarrow> rat" where
  "parse_decimal s =
     (let ip = takeWhile (\<lambda>c. c \<noteq> CHR ''.'') s;
          fp = drop 1 (dropWhile (\<lambda>c. c \<noteq> CHR ''.'') s)
      in of_nat (parse_nat ip) + of_nat (parse_nat fp) / 10 ^ length fp)"

definition group_text :: "rmatch \<Rightarrow> nat \<Rightarrow> string" where
  "group_text m k = (case group m k of Some s \<Rightarrow> s | None \<Rightarrow> [])"

text \<open>
  \<^verbatim>\<open>parse_date_candidate\<close>: the earliest of the dates in the window that the parser
  accepts, that lie after the year 1900 and not after now.
\<close>

definition date_candidates :: "(string \<Rightarrow> pydate option) \<Rightarrow> pydate \<Rightarrow> string \<Rightarrow> pydate list" where
  "date_candidates dateparse today neigh =
     filter (\<lambda>d. 1900 < year_of d \<and> d \<le> today)
       (List.map_filter (\<lambda>m. dateparse (group_text m 1)) (re_finditer False RE_DATE neigh))"

definition parse_date_candidate :: "(string \<Rightarrow> pydate option) \<Rightarrow> pydate \<Rightarrow> string \<Rightarrow> pydate option" where
  "parse_date_candidate dateparse today neigh =
     (case sort (date_candidates dateparse today neigh) of
        [] \<Rightarrow> None
      | d # ds \<Rightarrow> Some d)"

text \<open>The gate \<^verbatim>\<open>any(k in low for k in TIB_KEYWORDS)\<close>.\<close>

definition has_tib_keyword :: "string \<Rightarrow> bool" where
  "has_tib_keyword neigh = list_ex (\<lambda>k. str_in k (py_lower neigh)) TIB_KEYWORDS"

definition parse_tib_value_strict ::
  "(string \<Rightarrow> pydate option) \<Rightarrow> pydate \<Rightarrow> string \<Rightarrow> (rat \<times> rat) option" where
  "parse_tib_value_strict dateparse today neigh =
     (if \<not> has_tib_keyword neigh then None
      else case re_search True RE_YEARS_MONTHS neigh of
        Some m \<Rightarrow>
          (let yrs = parse_nat (group_text m 1); mos = parse_nat (group_text m 2);
               total_m = yrs * 12 + mos
           in Some (of_nat total_m, py_round 2 (of_nat total_m / 12)))
      | None \<Rightarrow>
      (case re_search True RE_MONTHS_ONLY neigh of
        Some m \<Rightarrow>
          (let mos = parse_decimal (group_text m 1)
           in Some (mos, py_round 2 (mos / 12)))
      | None \<Rightarrow>
      (case re_search True RE_YEARS_NUM neigh of
        Some m \<Rightarrow>
          (let yrs = parse_decimal (group_text m 1); mos = py_round 1 (yrs * 12)
           in Some (mos, py_round 2 yrs))
      | None \<Rightarrow>
      (case parse_date_candidate dateparse today neigh of
        Some d \<Rightarrow>
          (let delta = today - d;
               yrs = py_round 2 (of_int delta / (1461 / 4));
               mos = py_round 1 (of_int delta / (487 / 16))
           in Some (mos, yrs))
      | None \<Rightarrow>
      (case re_search True RE_FOUNDING_YEAR neigh of
        Some m \<Rightarrow>
          (let year = int (parse_nat (group_text m 2))
           in if 1900 < year \<and> year \<le> year_of today
              then (let yrs = of_int (year_of today - year); mos = py_round 1 (yrs * 12)
                    in Some (mos, py_round 2 yrs))
              else None)
      | None \<Rightarrow> None)))))"







definition no_dateparse :: "string \<Rightarrow> pydate option" where
  "no_dateparse raw = None"

section \<open>Statements: the statement month\<close>

text \<open>
  \<^verbatim>\<open>date(year, month, day)\<close>, as CPython's \<^verbatim>\<open>datetime\<close> checks its fields and computes
  the ordinal; an invalid date raises \<^verbatim>\<open>ValueError\<close>.
\<close>

definition is_leap :: "int \<Rightarrow> bool" where
  "is_leap year = (year mod 4 = 0 \<and> (year mod 100 \<noteq> 0 \<or> year mod 400 = 0))"

definition days_before_year :: "int \<Rightarrow> int" where
  "days_before_year year = (let y = year - 1 in y * 365 + y div 4 - y div 100 + y div 400)"

definition days_in_month :: "int \<Rightarrow> int \<Rightarrow> int" where
  "days_in_month year month =
     (if month = 2 \<and> is_leap year then 29 else DAYS_IN_MONTH ! nat month)"

definition days_before_month :: "int \<Rightarrow> int \<Rightarrow> int" where
  "days_before_month year month =
     DAYS_BEFORE_MONTH ! nat month + (if month > 2 \<and> is_leap year then 1 else 0)"

definition mk_date :: "int \<Rightarrow> int \<Rightarrow> int \<Rightarrow> pyerror + pydate" where
  "mk_date year month day =
     (if \<not> (1 \<le> year \<and> year \<le> 9999) then Inl ValueError
      else if \<not> (1 \<le> month \<and> month \<le> 12) then Inl ValueError
      else if \<not> (1 \<le> day \<and> day \<le> days_in_month year month) then Inl ValueError
      else Inr (days_before_year year + days_before_month year month + day))"

text \<open>\<^verbatim>\<open>d - timedelta(days=1)\<close>\<close>

definition sub_one_day :: "pydate \<Rightarrow> pyerror + pydate" where
  "sub_one_day d = (if d - 1 < 1 then Inl OverflowError else Inr (d - 1))"

text \<open>
  The first and the last day of a month:
  \<^verbatim>\<open>date(y, mo, 1)\<close> and \<^verbatim>\<open>date(y + (mo // 12), (mo % 12) + 1, 1) - timedelta(days=1)\<close>.
\<close>

definition month_bounds :: "int \<Rightarrow> int \<Rightarrow> pyerror + pydate \<times> pydate" where
  "month_bounds y mo =
     (case mk_date y mo 1 of
        Inl e \<Rightarrow> Inl e
      | Inr d1 \<Rightarrow>
          (case mk_date (y + mo div 12) (mo mod 12 + 1) 1 of
             Inl e \<Rightarrow> Inl e
           | Inr nxt \<Rightarrow> (case sub_one_day nxt of Inl e \<Rightarrow> Inl e | Inr d_end \<Rightarrow> Inr (d1, d_end))))"

text \<open>The patterns of \<^verbatim>\<open>month_from_period\<close> and its helpers.\<close>

definition NUM_DATE_Y :: rx where
  "NUM_DATE_Y =
     seqs [rx_times 1 2 rx_digit, rx_slash_or_dash, rx_times 1 2 rx_digit, rx_slash_or_dash,
           rx_times 2 4 rx_digit]"

text \<open>\<^verbatim>\<open>DATE_Y_PAT\<close> and \<^verbatim>\<open>DATE_PAT\<close>\<close>

definition DATE_Y_PAT :: rx where
  "DATE_Y_PAT = seqs [WordB, NUM_DATE_Y, WordB]"

definition DATE_PAT :: rx where
  "DATE_PAT = seqs [WordB, rx_times 1 2 rx_digit, rx_slash_or_dash, rx_times 1 2 rx_digit, WordB]"

text \<open>\<^verbatim>\<open>\s*(?:to|through|\-)\s*\<close>\<close>

definition RANGE_SEP :: rx where
  "RANGE_SEP = seqs [rx_star rx_space, alts [lit ''to'', lit ''through'', lit ''-''], rx_star rx_space]"

text \<open>\<^verbatim>\<open>[A-Za-z]{3,9}\s+\d{1,2},?\s+\d{2,4}\<close>\<close>

definition WORD_DATE :: rx where
  "WORD_DATE =
     seqs [rx_times 3 9 rx_letter, rx_plus rx_space, rx_times 1 2 rx_digit, rx_opt (lit '',''),
           rx_plus rx_space, rx_times 2 4 rx_digit]"

text \<open>
  \<^verbatim>\<open>(statement (?:period|cycle).{0,30}?)(N)\s*(?:to|through|\-)\s*(N)\<close> with \<^verbatim>\<open>N\<close> the
  numeric date, \<^verbatim>\<open>re.I\<close>
\<close>

definition RE_STATEMENT_PERIOD :: rx where
  "RE_STATEMENT_PERIOD =
     seqs [Grp 1 (seqs [lit ''statement '', Alt (lit ''period'') (lit ''cycle''),
                        Rep False 0 (Some 30) (Cls False [Dot])]),
           Grp 2 NUM_DATE_Y, RANGE_SEP, Grp 3 NUM_DATE_Y]"

definition RE_RANGE_YEAR :: rx where
  "RE_RANGE_YEAR = seqs [WordB, Grp 1 DATE_Y_PAT, RANGE_SEP, Grp 2 DATE_Y_PAT, WordB]"

definition RE_RANGE_SHORT :: rx where
  "RE_RANGE_SHORT = seqs [WordB, Grp 1 DATE_PAT, RANGE_SEP, Grp 2 DATE_PAT, WordB]"

definition RE_RANGE_WORDED :: rx where
  "RE_RANGE_WORDED = seqs [WordB, Grp 1 WORD_DATE, RANGE_SEP, Grp 2 WORD_DATE, WordB]"

definition RE_RANGE_PREFIXED :: rx where
  "RE_RANGE_PREFIXED =
     seqs [alts [seqs [lit ''for'', rx_plus rx_space, lit ''the'', rx_plus rx_space, lit ''period''],
                 seqs [lit ''period'', rx_plus rx_space, lit ''covered''],
                 seqs [lit ''statement'', rx_plus rx_space, lit ''period'']],
           rx_star rx_space, rx_opt (Cls False [Lit (CHR '':''), Lit (CHR ''-'')]), rx_star rx_space,
           Grp 1 (Alt WORD_DATE NUM_DATE_Y), RANGE_SEP, Grp 2 (Alt WORD_DATE NUM_DATE_Y)]"

text \<open>\<^verbatim>\<open>(for|ending|period)\s+(?:on\s+)?([A-Za-z]{3,9}\s+\d{4})\<close>, \<^verbatim>\<open>re.I\<close>\<close>

definition RE_MONTH_YEAR :: rx where
  "RE_MONTH_YEAR =
     seqs [Grp 1 (alts [lit ''for'', lit ''ending'', lit ''period'']), rx_plus rx_space,
           rx_opt (Seq (lit ''on'') (rx_plus rx_space)),
           Grp 2 (seqs [rx_times 3 9 rx_letter, rx_plus rx_space, rx_times 4 4 rx_digit])]"

text \<open>\<^verbatim>\<open>(\d{1,2})[_-](\d{1,2})[_-](\d{4})\<close> and \<^verbatim>\<open>(\d{4})[_-](\d{1,2})[_-](\d{1,2})\<close>\<close>

definition rx_underscore_or_dash :: rx where
  "rx_underscore_or_dash = Cls False [Lit (CHR ''_''), Lit (CHR ''-'')]"

definition RE_FILE_MDY :: rx where
  "RE_FILE_MDY =
     seqs [Grp 1 (rx_times 1 2 rx_digit), rx_underscore_or_dash, Grp 2 (rx_times 1 2 rx_digit),
           rx_underscore_or_dash, Grp 3 (rx_times 4 4 rx_digit)]"

definition RE_FILE_YMD :: rx where
  "RE_FILE_YMD =
     seqs [Grp 1 (rx_times 4 4 rx_digit), rx_underscore_or_dash, Grp 2 (rx_times 1 2 rx_digit),
           rx_underscore_or_dash, Grp 3 (rx_times 1 2 rx_digit)]"

text \<open>\<^verbatim>\<open>os.path.basename\<close> and the first component of \<^verbatim>\<open>os.path.splitext\<close> (POSIX).\<close>

definition basename :: "string \<Rightarrow> string" where
  "basename p = rev (takeWhile (\<lambda>c. c \<noteq> CHR ''/'') (rev p))"

definition splitext_root :: "string \<Rightarrow> string" where
  "splitext_root p =
     (let file = basename p;
          ext = rev (takeWhile (\<lambda>c. c \<noteq> CHR ''.'') (rev file));
          stem = take (length file - length ext - 1) file
      in if \<not> List.member file (CHR ''.'') then p
         else if list_all (\<lambda>c. c = CHR ''.'') stem then p
         else take (length p - length ext - 1) p)"

text \<open>
  \<^verbatim>\<open>_month_from_filename\<close>. The label is \<^verbatim>\<open>f"{y:04d}-{mo:02d}"\<close>; any exception of the
  \<^verbatim>\<open>date\<close> computations gives \<^verbatim>\<open>None\<close>.
\<close>

definition filename_period :: "int \<Rightarrow> int \<Rightarrow> int \<Rightarrow> period option" where
  "filename_period y mo dd =
     (case mk_date y mo dd of
        Inl e \<Rightarrow> None
      | Inr d2 \<Rightarrow>
          (case month_bounds y mo of
             Inl e \<Rightarrow> None
           | Inr (d1, d_end) \<Rightarrow> Some (fmt_0d 4 y @ ''-'' @ fmt_0d 2 mo, d1, d_end)))"

definition month_from_filename :: "string option \<Rightarrow> period option" where
  "month_from_filename filename =
     (case filename of
        None \<Rightarrow> None
      | Some f \<Rightarrow>
          if f = [] then None
          else
            (let name = splitext_root (basename f)
             in case re_search False RE_FILE_MDY name of
                  None \<Rightarrow>
                    (case re_search False RE_FILE_YMD name of
                       Some m \<Rightarrow>
                         filename_period (int (parse_nat (group_text m 1)))
                           (int (parse_nat (group_text m 2))) (int (parse_nat (group_text m 3)))
                     | None \<Rightarrow> None)
                | Some m \<Rightarrow>
                    filename_period (int (parse_nat (group_text m 3)))
                      (int (parse_nat (group_text m 1))) (int (parse_nat (group_text m 2)))))"

text \<open>
  \<^verbatim>\<open>_parse_period_variants\<close>. \<open>dateparse\<close> is \<^verbatim>\<open>dateparser.parse(...).date()\<close> of the
  dateutil library, \<open>None\<close> when it raises. Each attempt is inside \<^verbatim>\<open>try\<close>.
\<close>

definition try_range :: "(string \<Rightarrow> pydate option) \<Rightarrow> rmatch \<Rightarrow> (pydate \<times> pydate) option" where
  "try_range dateparse m =
     (case dateparse (group_text m 1) of
        None \<Rightarrow> None
      | Some d1 \<Rightarrow>
          (case dateparse (group_text m 2) of
             None \<Rightarrow> None
           | Some d2 \<Rightarrow> if d1 \<le> d2 then Some (d1, d2) else None))"

fun first_range :: "(string \<Rightarrow> pydate option) \<Rightarrow> string \<Rightarrow> rx list \<Rightarrow> (pydate \<times> pydate) option" where
  "first_range dateparse text [] = None"
| "first_range dateparse text (pat # pats) =
     (case re_search True pat text of
        None \<Rightarrow> first_range dateparse text pats
      | Some m \<Rightarrow>
          (case try_range dateparse m of
             Some r \<Rightarrow> Some r
           | None \<Rightarrow> first_range dateparse text pats))"

definition parse_period_variants :: "(string \<Rightarrow> pydate option) \<Rightarrow> string \<Rightarrow> (pydate \<times> pydate) option" where
  "parse_period_variants dateparse text =
     first_range dateparse text [RE_RANGE_YEAR, RE_RANGE_SHORT, RE_RANGE_WORDED, RE_RANGE_PREFIXED]"

text \<open>The steps (A) to (E) of \<^verbatim>\<open>month_from_period\<close>.\<close>

definition period_A :: "(string \<Rightarrow> pydate option) \<Rightarrow> string \<Rightarrow> period option" where
  "period_A dateparse text =
     (case re_search True RE_STATEMENT_PERIOD text of
        None \<Rightarrow> None
      | Some m \<Rightarrow>
          (case dateparse (group_text m 2) of
             None \<Rightarrow> None
           | Some d1 \<Rightarrow>
               (case dateparse (group_text m 3) of
                  None \<Rightarrow> None
                | Some d2 \<Rightarrow> Some (month_key d2, d1, d2))))"

definition period_B :: "(string \<Rightarrow> pydate option) \<Rightarrow> string \<Rightarrow> period option" where
  "period_B dateparse text =
     (case parse_period_variants dateparse text of
        None \<Rightarrow> None
      | Some (d1, d2) \<Rightarrow> Some (month_key d2, d1, d2))"

definition period_C :: "(string \<Rightarrow> pydate option) \<Rightarrow> string \<Rightarrow> period option" where
  "period_C dateparse text =
     (case re_search True RE_MONTH_YEAR text of
        None \<Rightarrow> None
      | Some m \<Rightarrow>
          (case dateparse (group_text m 2) of
             None \<Rightarrow> None
           | Some d \<Rightarrow>
               (case month_bounds (year_of d) (month_of d) of
                  Inl e \<Rightarrow> None
                | Inr (d1, d2) \<Rightarrow> Some (month_key d, d1, d2))))"

text \<open>\<^verbatim>\<open>max(ds)\<close> of a non-empty list.\<close>

definition max_date :: "pydate \<Rightarrow> pydate list \<Rightarrow> pydate" where
  "max_date d ds = fold max ds d"

definition period_D :: "(string \<Rightarrow> pydate option) \<Rightarrow> string \<Rightarrow> pyerror + period option" where
  "period_D dateparse text =
     (case List.map_filter (\<lambda>m. dateparse (m_text m)) (re_finditer False DATE_Y_PAT text) of
        [] \<Rightarrow> Inr None
      | d # ds \<Rightarrow>
          (let d2 = max_date d ds
           in case month_bounds (year_of d2) (month_of d2) of
                Inl e \<Rightarrow> Inl e
              | Inr (d1, d_end) \<Rightarrow> Inr (Some (month_key d2, d1, d_end))))"

definition month_from_period ::
  "(string \<Rightarrow> pydate option) \<Rightarrow> string \<Rightarrow> string option \<Rightarrow> pyerror + period option" where
  "month_from_period dateparse text filename =
     (case period_A dateparse text of
        Some p \<Rightarrow> Inr (Some p)
      | None \<Rightarrow>
          (case period_B dateparse text of
             Some p \<Rightarrow> Inr (Some p)
           | None \<Rightarrow>
               (case period_C dateparse text of
                  Some p \<Rightarrow> Inr (Some p)
                | None \<Rightarrow>
                    (case period_D dateparse text of
                       Inl e \<Rightarrow> Inl e
                     | Inr (Some p) \<Rightarrow> Inr (Some p)
                     | Inr None \<Rightarrow> Inr (month_from_filename filename)))))"

text \<open>
  The first two statements of \<^verbatim>\<open>summarize_statement\<close>:
  \<^verbatim>\<open>month_label = period[0] if period else "[unknown]"\<close>, which becomes the field
  \<^verbatim>\<open>statement_month\<close> of the summary.
\<close>

definition statement_month :: "(string \<Rightarrow> pydate option) \<Rightarrow> string \<Rightarrow> string option \<Rightarrow> pyerror + string" where
  "statement_month dateparse text filename =
     (case month_from_period dateparse text filename of
        Inl e \<Rightarrow> Inl e
      | Inr None \<Rightarrow> Inr ''[unknown]''
      | Inr (Some p) \<Rightarrow> Inr (fst p))"

text \<open>A well-formed \<^verbatim>\<open>YYYY-MM\<close>: four digits, a hyphen, two digits that spell a month.\<close>

definition year_month_form :: "string \<Rightarrow> bool" where
  "year_month_form s =
     (length s = 7 \<and> list_all is_digit (take 4 s) \<and> s ! 4 = CHR ''-''
      \<and> list_all is_digit (drop 5 s)
      \<and> 1 \<le> parse_nat (drop 5 s) \<and> parse_nat (drop 5 s) \<le> 12)"

text \<open>What Python's \<^verbatim>\<open>date\<close> type guarantees of a date that the parser returns.\<close>

definition returns_dates :: "(string \<Rightarrow> pydate option) \<Rightarrow> bool" where
  "returns_dates dateparse =
     (\<forall>raw d. dateparse raw = Some d \<longrightarrow> 1 \<le> d \<and> d \<le> MAXORDINAL)"

text \<open>An example parser that knows the two dates of June 2025 used below.\<close>

definition june_dateparse :: "string \<Rightarrow> pydate option" where
  "june_dateparse raw =
     (if raw = ''06/01/2025'' then Some 739403
      else if raw = ''06/30/2025'' then Some 739432
      else None)"

section \<open>Applications: state resolution\<close>


























section \<open>Lemmas on the dictionaries\<close>

lemma update_fresh: "k \<notin> fst ` set al \<Longrightarrow> AList.update k v al = al @ [(k, v)]"
  by (induction al) auto

lemma map_of_dd_append:
  "map_of (dd_append k v d) k' =
     (if k' = k then Some ((case map_of d k of None \<Rightarrow> [] | Some vs \<Rightarrow> vs) @ [v])
      else map_of d k')"
  by (simp add: dd_append_def update_conv' split: option.splits)

lemma map_of_group_fold:
  "map_of (foldl (\<lambda>by_day t. dd_append (dt t) t by_day) acc txns) k =
     (case map_of acc k of
        None \<Rightarrow> (if filter (\<lambda>t. dt t = k) txns = [] then None
                 else Some (filter (\<lambda>t. dt t = k) txns))
      | Some vs \<Rightarrow> Some (vs @ filter (\<lambda>t. dt t = k) txns))"
proof (induction txns arbitrary: acc)
  case Nil
  then show ?case by (simp split: option.splits)
next
  case (Cons t txns)
  show ?case
    by (simp add: Cons.IH map_of_dd_append split: option.splits)
qed

lemma map_of_group_by_day:
  "map_of (group_by_day txns) k =
     (if filter (\<lambda>t. dt t = k) txns = [] then None else Some (filter (\<lambda>t. dt t = k) txns))"
  by (simp add: group_by_day_def map_of_group_fold)


section \<open>Daily balances\<close>

lemma apply_day_sum: "apply_day bal ts = bal + sum_list (map amount ts)"
  unfolding apply_day_def by (induction ts arbitrary: bal) (auto simp: algebra_simps)

lemma walk_days_closed:
  "d2 < MAXORDINAL \<Longrightarrow> \<forall>k \<in> fst ` set daily. k < d \<Longrightarrow>
   walk_days by_day d d2 bal daily =
     Inr (daily @ map (\<lambda>x. (x, bal + (\<Sum>y\<in>{d..x}. day_total by_day y))) [d..d2])"
proof (induction by_day d d2 bal daily rule: walk_days.induct)
  case (1 by_day d d2 bal daily)
  show ?case
  proof (cases "d \<le> d2")
    case False
    then show ?thesis by (simp add: walk_days.simps)
  next
    case True
    define bal' where "bal' = (case map_of by_day d of Some ts \<Rightarrow> apply_day bal ts | None \<Rightarrow> bal)"
    have bal': "bal' = bal + day_total by_day d"
      by (simp add: bal'_def day_total_def apply_day_sum split: option.splits)
    have fresh: "d \<notin> fst ` set daily" using "1.prems"(2) by auto
    have upd: "AList.update d bal' daily = daily @ [(d, bal')]"
      by (rule update_fresh [OF fresh])
    have nxt: "add_one_day d = Inr (d + 1)"
      using True "1.prems"(1) by (simp add: add_one_day_def)
    have keys: "\<forall>k \<in> fst ` set (AList.update d bal' daily). k < d + 1"
      using "1.prems"(2) by (auto simp: upd)
    have IH: "walk_days by_day (d + 1) d2 bal' (AList.update d bal' daily) =
       Inr (AList.update d bal' daily @
            map (\<lambda>x. (x, bal' + (\<Sum>y\<in>{d + 1..x}. day_total by_day y))) [d + 1..d2])"
      using "1.IH" [OF True bal'_def refl nxt "1.prems"(1) keys] .
    have sums: "\<And>x. d + 1 \<le> x \<Longrightarrow>
        bal' + (\<Sum>y\<in>{d + 1..x}. day_total by_day y) = bal + (\<Sum>y\<in>{d..x}. day_total by_day y)"
    proof -
      fix x assume "d + 1 \<le> x"
      then have "{d..x} = insert d {d + 1..x}" by auto
      then show "bal' + (\<Sum>y\<in>{d + 1..x}. day_total by_day y) = bal + (\<Sum>y\<in>{d..x}. day_total by_day y)"
        by (simp add: bal')
    qed
    have maps: "map (\<lambda>x. (x, bal' + (\<Sum>y\<in>{d + 1..x}. day_total by_day y))) [d + 1..d2]
              = map (\<lambda>x. (x, bal + (\<Sum>y\<in>{d..x}. day_total by_day y))) [d + 1..d2]"
      by (rule map_cong) (auto simp: sums)
    have "walk_days by_day d d2 bal daily =
            walk_days by_day (d + 1) d2 bal' (AList.update d bal' daily)"
      using True by (subst walk_days.simps) (simp add: nxt bal'_def Let_def)
    also have "\<dots> = Inr (AList.update d bal' daily @
            map (\<lambda>x. (x, bal' + (\<Sum>y\<in>{d + 1..x}. day_total by_day y))) [d + 1..d2])"
      by (rule IH)
    also have "\<dots> = Inr (daily @ (d, bal') #
           map (\<lambda>x. (x, bal + (\<Sum>y\<in>{d..x}. day_total by_day y))) [d + 1..d2])"
      by (simp add: upd maps)
    also have "(d, bal') # map (\<lambda>x. (x, bal + (\<Sum>y\<in>{d..x}. day_total by_day y))) [d + 1..d2]
          = map (\<lambda>x. (x, bal + (\<Sum>y\<in>{d..x}. day_total by_day y))) [d..d2]"
      using True by (subst (2) upto.simps) (simp add: bal')
    finally show ?thesis .
  qed
qed


lemma rebuild_closed:
  assumes "txns \<noteq> []" "d2 < MAXORDINAL"
  shows "rebuild_daily_balances txns ob (Some (lbl, d1, d2)) =
     Inr (map (\<lambda>x. (x, opening_or_zero ob + (\<Sum>y\<in>{d1..x}. day_total (group_by_day txns) y))) [d1..d2])"
proof -
  obtain t ts where txns: "txns = t # ts" using assms(1) by (cases txns) auto
  show ?thesis
    using walk_days_closed [of d2 "[]" d1 "group_by_day txns" "opening_or_zero ob"] assms(2)
    by (simp add: rebuild_daily_balances_def txns opening_or_zero_def)
qed

lemma day_total_no_txn:
  "filter (\<lambda>t. dt t = d) txns = [] \<Longrightarrow> day_total (group_by_day txns) d = 0"
  by (simp add: day_total_def map_of_group_by_day)

lemma map_of_tabulate:
  "map_of (map (\<lambda>x. (x, f x)) xs) k = (if k \<in> set xs then Some (f k) else None)"
  by (induction xs) auto

text \<open>
  Claim C2, as amended. For a non-empty transaction list, any opening balance (absent
  means 0) and a period \<open>(lbl, d1, d2)\<close> with \<open>d1 \<le> d2\<close> that ends before 9999-12-31,
  \<^verbatim>\<open>rebuild_daily_balances\<close> returns a mapping whose keys, in insertion order, are exactly
  the days \<open>d1, d1 + 1, \<dots>, d2\<close>, each once; the first day without transactions holds the
  opening balance and every later day without transactions holds the balance recorded
  for the day before. (With no transactions at all the function returns the empty
  mapping, see the counterexample below.)
\<close>

theorem rebuild_daily_balances_covers_period:
  assumes "txns \<noteq> []" and "d1 \<le> d2" and "d2 < MAXORDINAL"
  shows "\<exists>daily. rebuild_daily_balances txns ob (Some (lbl, d1, d2)) = Inr daily
           \<and> keys_of daily = [d1..d2]
           \<and> distinct (keys_of daily)
           \<and> set (keys_of daily) = {d1..d2}
           \<and> (filter (\<lambda>t. dt t = d1) txns = [] \<longrightarrow> map_of daily d1 = Some (opening_or_zero ob))
           \<and> (\<forall>d. d1 < d \<and> d \<le> d2 \<and> filter (\<lambda>t. dt t = d) txns = []
                  \<longrightarrow> map_of daily d = map_of daily (d - 1))"
proof -
  let ?f = "\<lambda>x. opening_or_zero ob + (\<Sum>y\<in>{d1..x}. day_total (group_by_day txns) y)"
  let ?daily = "map (\<lambda>x. (x, ?f x)) [d1..d2]"
  have r: "rebuild_daily_balances txns ob (Some (lbl, d1, d2)) = Inr ?daily"
    by (rule rebuild_closed [OF assms(1) assms(3)])
  have k: "keys_of ?daily = [d1..d2]"
    by (simp add: keys_of_def comp_def)
  have first: "filter (\<lambda>t. dt t = d1) txns = [] \<longrightarrow> map_of ?daily d1 = Some (opening_or_zero ob)"
    using assms(2) by (simp add: map_of_tabulate day_total_no_txn)
  have carry: "map_of ?daily d = map_of ?daily (d - 1)"
    if "d1 < d" "d \<le> d2" "filter (\<lambda>t. dt t = d) txns = []" for d
  proof -
    have "{d1..d} = insert d {d1..d - 1}" using that(1) by auto
    then have "?f d = ?f (d - 1)"
      using that(3) by (simp add: day_total_no_txn)
    then show ?thesis using that(1,2) by (simp add: map_of_tabulate)
  qed
  show ?thesis
    using r k first carry by (intro exI [of _ ?daily]) (simp del: map_map)
qed


theorem rebuild_daily_balances_covers_period_witness:
  "[\<lparr>dt = 738887, desc = ''rent'', amount = - 20, runbal = None\<rparr>] \<noteq> []
   \<and> (738886::int) \<le> 738890 \<and> 738890 < MAXORDINAL
   \<and> (\<exists>daily. rebuild_daily_balances
          [\<lparr>dt = 738887, desc = ''rent'', amount = - 20, runbal = None\<rparr>] (Some 100)
          (Some (''2024-01'', 738886, 738890)) = Inr daily
        \<and> keys_of daily = [738886..738890]
        \<and> distinct (keys_of daily)
        \<and> set (keys_of daily) = {738886..738890}
        \<and> (filter (\<lambda>t. dt t = 738886)
               [\<lparr>dt = 738887, desc = ''rent'', amount = - 20, runbal = None\<rparr>] = []
             \<longrightarrow> map_of daily 738886 = Some (opening_or_zero (Some 100)))
        \<and> (\<forall>d. 738886 < d \<and> d \<le> 738890
                 \<and> filter (\<lambda>t. dt t = d)
                      [\<lparr>dt = 738887, desc = ''rent'', amount = - 20, runbal = None\<rparr>] = []
               \<longrightarrow> map_of daily d = map_of daily (d - 1)))"
proof -
  have h1: "[\<lparr>dt = 738887, desc = ''rent'', amount = - 20, runbal = None\<rparr>] \<noteq> []" by simp
  have h2: "(738886::int) \<le> 738890" by simp
  have h3: "(738890::int) < MAXORDINAL" by (simp add: MAXORDINAL_def)
  show ?thesis
    using rebuild_daily_balances_covers_period [OF h1 h2 h3, of "Some 100" "''2024-01''"] h1 h2 h3
    by blast
qed

text \<open>
  The bound on the end of the period is needed: after the last day of Python's calendar
  the loop's \<^verbatim>\<open>d += timedelta(days=1)\<close> raises.
\<close>

lemma rebuild_daily_balances_last_day_overflows:
  "rebuild_daily_balances (t # ts) ob (Some (lbl, MAXORDINAL, MAXORDINAL)) = Inl OverflowError"
  by (simp add: rebuild_daily_balances_def walk_days.simps [of _ MAXORDINAL] add_one_day_def)

text \<open>
  C2 as stated quantifies over every transaction list. On the empty list the guard
  \<^verbatim>\<open>if not txns: return daily\<close> returns the empty mapping, whatever the period.
\<close>

theorem rebuild_daily_balances_empty_counterexample:
  "rebuild_daily_balances [] (Some (- 50)) (Some (''2024-01'', 738886, 738890)) = Inr []
   \<and> keys_of ([] :: (pydate \<times> rat) list) \<noteq> [738886..738890]"
  by (simp add: rebuild_daily_balances_def keys_of_def upto.simps)

lemma walk_run:
  "walk_days [(738886, [\<lparr>dt = 738886, desc = s, amount = 0, runbal = None\<rparr>])] 738886 738890 (- 50) [] =
   Inr [(738886, - 50), (738887, - 50), (738888, - 50), (738889, - 50), (738890, - 50)]"
  by (simp add: walk_days.simps add_one_day_def MAXORDINAL_def apply_day_def)

text \<open>
  C3 as stated: opening balance -50, no transactions, the five days 2024-01-01 to
  2024-01-05. The count is not 5.
\<close>

theorem count_negative_days_empty_counterexample:
  "negative_ending_days [] (Some (- 50)) (Some (''2024-01'', 738886, 738890)) \<noteq> Inr 5"
  by (simp add: negative_ending_days_def rebuild_daily_balances_def count_negative_days_def)

text \<open>
  Claim C3, as amended. With an empty transaction list the count of negative days is 0
  for every opening balance and period, because the mapping is empty; with opening
  balance -50 and a single zero-amount transaction on the first of the five days
  2024-01-01 to 2024-01-05 the count is 5.
\<close>

theorem count_negative_days_opening_minus_50:
  "negative_ending_days [] ob p = Inr 0
   \<and> negative_ending_days [\<lparr>dt = 738886, desc = s, amount = 0, runbal = None\<rparr>] (Some (- 50))
        (Some (lbl, 738886, 738890)) = Inr 5"
  by (simp add: negative_ending_days_def rebuild_daily_balances_def count_negative_days_def
      group_by_day_def dd_append_def walk_run)

section \<open>Monthly counts and deposits\<close>

lemma dict_get0_dd_add:
  "dict_get0 (dd_add k v d) k' = (if k' = k then dict_get0 d k + v else dict_get0 d k')"
  by (simp add: dd_add_def dict_get0_def update_conv')

lemma count_txn_zero: "amount t = 0 \<Longrightarrow> count_txn acc t = acc"
  by (simp add: count_txn_def split: prod.splits)

lemma foldl_count_txn_filter:
  "foldl count_txn acc (filter (\<lambda>t. amount t \<noteq> 0) txns) = foldl count_txn acc txns"
  by (induction txns arbitrary: acc) (simp_all add: count_txn_zero)

lemma count_txn_counts_step:
  "dict_get0 (fst (count_txn acc t)) k + dict_get0 (fst (snd (count_txn acc t))) k
     = dict_get0 (fst acc) k + dict_get0 (fst (snd acc)) k
       + (if month_key (dt t) = k \<and> amount t \<noteq> 0 then 1 else 0)"
  by (cases acc) (auto simp: count_txn_def Let_def dict_get0_dd_add)

lemma count_txn_deposits_step:
  "dict_get0 (snd (snd (count_txn acc t))) k
     = dict_get0 (snd (snd acc)) k
       + (if month_key (dt t) = k \<and> 0 < amount t \<and> \<not> excluded_deposit (desc t)
          then amount t else 0)"
  by (cases acc) (auto simp: count_txn_def Let_def dict_get0_dd_add)

lemma foldl_count_txn_counts:
  "dict_get0 (fst (foldl count_txn acc txns)) k + dict_get0 (fst (snd (foldl count_txn acc txns))) k
     = dict_get0 (fst acc) k + dict_get0 (fst (snd acc)) k
       + int (length (filter (\<lambda>t. amount t \<noteq> 0) (in_month k txns)))"
proof (induction txns arbitrary: acc)
  case Nil
  then show ?case by (simp add: in_month_def)
next
  case (Cons t txns)
  have "in_month k (t # txns) = (if month_key (dt t) = k then [t] else []) @ in_month k txns"
    by (simp add: in_month_def)
  then show ?case
    by (simp add: Cons.IH count_txn_counts_step)
qed

lemma foldl_count_txn_deposits:
  "dict_get0 (snd (snd (foldl count_txn acc txns))) k
     = dict_get0 (snd (snd acc)) k
       + sum_list (map amount (filter (\<lambda>t. 0 < amount t \<and> \<not> excluded_deposit (desc t)) (in_month k txns)))"
proof (induction txns arbitrary: acc)
  case Nil
  then show ?case by (simp add: in_month_def)
next
  case (Cons t txns)
  have "in_month k (t # txns) = (if month_key (dt t) = k then [t] else []) @ in_month k txns"
    by (simp add: in_month_def)
  then show ?case
    by (simp add: Cons.IH count_txn_deposits_step)
qed

text \<open>
  Claim C10. Dropping the zero-amount transactions changes none of the three mappings
  that \<^verbatim>\<open>compute_monthly_counts_and_deposits\<close> returns; for every month key, the debit
  count plus the credit count is the number of that month's transactions minus the
  number of its zero-amount transactions, and the deposit total is the sum of the strictly
  positive, non-excluded amounts; and for the single zero-amount transaction of
  2024-01-01 the two counts add up to 0, strictly less than the one transaction of the month.
\<close>

theorem zero_amount_not_counted:
  "compute_monthly_counts_and_deposits (filter (\<lambda>t. amount t \<noteq> 0) txns)
      = compute_monthly_counts_and_deposits txns
   \<and> debit_count txns k + credit_count txns k
      = int (length (in_month k txns)) - int (length (filter (\<lambda>t. amount t = 0) (in_month k txns)))
   \<and> deposit_total txns k
      = sum_list (map amount (filter (\<lambda>t. 0 < amount t \<and> \<not> excluded_deposit (desc t)) (in_month k txns)))
   \<and> debit_count [\<lparr>dt = 738886, desc = ''fee waiver'', amount = 0, runbal = None\<rparr>] ''2024-01''
      + credit_count [\<lparr>dt = 738886, desc = ''fee waiver'', amount = 0, runbal = None\<rparr>] ''2024-01''
      < int (length (in_month ''2024-01''
               [\<lparr>dt = 738886, desc = ''fee waiver'', amount = 0, runbal = None\<rparr>]))"
proof -
  have a: "compute_monthly_counts_and_deposits (filter (\<lambda>t. amount t \<noteq> 0) txns)
      = compute_monthly_counts_and_deposits txns"
    by (simp add: compute_monthly_counts_and_deposits_def foldl_count_txn_filter)
  have len: "length (in_month k txns) =
      length (filter (\<lambda>t. amount t \<noteq> 0) (in_month k txns))
      + length (filter (\<lambda>t. amount t = 0) (in_month k txns))"
    using sum_length_filter_compl [of "\<lambda>t. amount t \<noteq> 0" "in_month k txns"] by simp
  have b: "debit_count txns k + credit_count txns k
      = int (length (in_month k txns)) - int (length (filter (\<lambda>t. amount t = 0) (in_month k txns)))"
    using foldl_count_txn_counts [of "([], [], [])" txns k] len
    by (simp add: debit_count_def credit_count_def compute_monthly_counts_and_deposits_def
        dict_get0_def)
  have c: "deposit_total txns k
      = sum_list (map amount (filter (\<lambda>t. 0 < amount t \<and> \<not> excluded_deposit (desc t)) (in_month k txns)))"
    using foldl_count_txn_deposits [of "([], [], [])" txns k]
    by (simp add: deposit_total_def compute_monthly_counts_and_deposits_def dict_get0_def)
  have mk: "month_key 738886 = ''2024-01''" by code_simp
  have d: "debit_count [\<lparr>dt = 738886, desc = ''fee waiver'', amount = 0, runbal = None\<rparr>] ''2024-01''
      + credit_count [\<lparr>dt = 738886, desc = ''fee waiver'', amount = 0, runbal = None\<rparr>] ''2024-01''
      < int (length (in_month ''2024-01''
               [\<lparr>dt = 738886, desc = ''fee waiver'', amount = 0, runbal = None\<rparr>]))"
    by (simp add: debit_count_def credit_count_def compute_monthly_counts_and_deposits_def
        count_txn_def dict_get0_def in_month_def mk)
  show ?thesis using a b c d by blast
qed

section \<open>Revenue selection\<close>









lemma sort_Nil_iff: "sort xs = [] \<longleftrightarrow> xs = []"
  using length_sort [of "\<lambda>x. x" xs] by (metis length_0_conv)



section \<open>The field resolver\<close>

lemma round_half_even_ge: "of_int k \<le> x \<Longrightarrow> k \<le> round_half_even x"
proof -
  assume a: "of_int k \<le> x"
  then have "k \<le> \<lfloor>x\<rfloor>" by (simp add: le_floor_iff)
  then show ?thesis by (auto simp: round_half_even_def Let_def)
qed

lemma round_half_even_le: "x \<le> of_int k \<Longrightarrow> round_half_even x \<le> k"
proof -
  assume a: "x \<le> of_int k"
    show ?thesis
  proof (cases "x = of_int k")
    case True
    then show ?thesis by (simp add: round_half_even_def Let_def)
  next
    case False
    then have "x < of_int k" using a by simp
    then have "\<lfloor>x\<rfloor> < k" by (simp add: floor_less_iff)
    then show ?thesis by (auto simp: round_half_even_def Let_def)
  qed
qed

lemma py_round2_ge: "of_int k / 100 \<le> x \<Longrightarrow> of_int k / 100 \<le> py_round 2 x"
proof -
  assume "of_int k / 100 \<le> x"
  then have "of_int k \<le> x * 10 ^ 2" by (simp add: field_simps)
  then have "k \<le> round_half_even (x * 10 ^ 2)" by (rule round_half_even_ge)
  then show ?thesis by (simp add: py_round_def divide_right_mono)
qed

lemma py_round2_le: "x \<le> of_int k / 100 \<Longrightarrow> py_round 2 x \<le> of_int k / 100"
proof -
  assume "x \<le> of_int k / 100"
  then have "x * 10 ^ 2 \<le> of_int k" by (simp add: field_simps)
  then have "round_half_even (x * 10 ^ 2) \<le> k" by (rule round_half_even_le)
  then show ?thesis by (simp add: py_round_def divide_right_mono)
qed


lemma truthy_not_None: "truthy v \<Longrightarrow> v \<noteq> None"
  by (cases v) auto

lemma try_hit_ok:
  assumes "result_ok best" "0 \<le> conf_base" "80 \<le> snd (snd h)"
  shows "result_ok (try_hit lines extractor_fn conf_base best h)"
proof -
  obtain idx anchor score where h: "h = (idx, anchor, score)" by (cases h) auto
  have s: "80 \<le> score" using assms(3) h by simp
  let ?conf = "min (conf_base + (score / 100) * (35 / 100)) (98 / 100)"
  have "28 / 100 \<le> conf_base + (score / 100) * (35 / 100)" using s assms(2) by simp
  then have lo: "of_int 28 / 100 \<le> ?conf" by (simp only: min_def of_int_numeral) simp
  have hi: "?conf \<le> of_int 98 / 100" by (simp only: of_int_numeral min.cobounded2)
  have "of_int 28 / 100 \<le> py_round 2 ?conf" by (rule py_round2_ge [OF lo])
  moreover have "py_round 2 ?conf \<le> of_int 98 / 100" by (rule py_round2_le [OF hi])
  ultimately show ?thesis
    using assms(1) by (simp add: try_hit_def h Let_def result_ok_def)
qed

lemma foldl_try_hit_ok:
  assumes "result_ok best" "0 \<le> conf_base" "list_all (\<lambda>h. 80 \<le> snd (snd h)) hits"
  shows "result_ok (foldl (try_hit lines extractor_fn conf_base) best hits)"
  using assms by (induction hits arbitrary: best) (simp_all add: try_hit_ok)

lemma try_hit_no_value:
  "\<not> truthy (extractor_fn (window lines (fst h) 2)) \<Longrightarrow>
   try_hit lines extractor_fn conf_base best h = best"
  by (cases h) (simp add: try_hit_def Let_def)

lemma foldl_try_hit_no_value:
  "list_all (\<lambda>h. \<not> truthy (extractor_fn (window lines (fst h) 2))) hits \<Longrightarrow>
   foldl (try_hit lines extractor_fn conf_base) best hits = best"
  by (induction hits arbitrary: best) (simp_all add: try_hit_no_value)

lemma hits_score:
  "list_all (\<lambda>h. 80 \<le> snd (snd h)) (best_anchor_hits_local partial_ratio lines_lower anchors)"
  by (auto simp: best_anchor_hits_local_def list_all_iff)

lemma headtail_try_ok:
  "headtail_try lines extractor_fn = empty_result
   \<or> (truthy (fvalue (headtail_try lines extractor_fn))
       \<and> confidence (headtail_try lines extractor_fn) = 45 / 100)"
  by (simp add: headtail_try_def Let_def)


lemma result_ok_props:
  assumes "result_ok r"
  shows "0 \<le> confidence r \<and> confidence r \<le> 1 \<and> (confidence r = 0 \<longleftrightarrow> fvalue r = None)"
  using assms truthy_not_None [of "fvalue r"]
  by (auto simp: result_ok_def empty_result_def)

lemma find_with_anchors_ok:
  assumes "map_of anchors key = Some phrases" and "0 \<le> conf_base"
  shows "\<exists>r. find_with_anchors partial_ratio lines lines_lower key anchors extractor_fn conf_base
              = Inr r
           \<and> 0 \<le> confidence r \<and> confidence r \<le> 1
           \<and> (confidence r = 0 \<longleftrightarrow> fvalue r = None)
           \<and> (list_all (\<lambda>h. \<not> truthy (extractor_fn (window lines (fst h) 2)))
                 (take 8 (best_anchor_hits_local partial_ratio lines_lower phrases))
               \<and> \<not> truthy (extractor_fn (head_text lines))
               \<and> \<not> truthy (extractor_fn (tail_text lines))
               \<longrightarrow> r = empty_result)"
proof -
  let ?hits = "take 8 (best_anchor_hits_local partial_ratio lines_lower phrases)"
  let ?best = "foldl (try_hit lines extractor_fn conf_base) empty_result ?hits"
  let ?ht = "headtail_try lines extractor_fn"
  let ?r = "if \<not> truthy (fvalue ?best) then ?ht else ?best"
  have run: "find_with_anchors partial_ratio lines lines_lower key anchors extractor_fn conf_base
              = Inr ?r"
    by (simp add: find_with_anchors_def assms(1) Let_def)
  have scores: "list_all (\<lambda>h. 80 \<le> snd (snd h)) ?hits"
    using hits_score [of partial_ratio lines_lower phrases]
    by (auto simp: list_all_iff dest: in_set_takeD)
  have best: "result_ok ?best"
    by (rule foldl_try_hit_ok [OF _ assms(2) scores]) (simp add: result_ok_def)
  have ht: "result_ok ?ht"
    using headtail_try_ok [of lines extractor_fn] by (auto simp: result_ok_def)
  have ok: "result_ok ?r" using best ht by simp
  have none: "?r = empty_result"
    if "list_all (\<lambda>h. \<not> truthy (extractor_fn (window lines (fst h) 2))) ?hits"
       "\<not> truthy (extractor_fn (head_text lines))" "\<not> truthy (extractor_fn (tail_text lines))"
  proof -
    have "?best = empty_result" by (rule foldl_try_hit_no_value [OF that(1)])
    moreover have "?ht = empty_result"
      using that(2,3) by (simp add: headtail_try_def Let_def py_or_def)
    ultimately show ?thesis by simp
  qed
  show ?thesis
    using run result_ok_props [OF ok] none by (intro exI [of _ ?r]) blast
qed

text \<open>
  Claim C1. For every document (list of lines), every similarity function, every window
  extractor and each of the five fields, \<^verbatim>\<open>find_with_anchors\<close> as called by
  \<^verbatim>\<open>extract_fields_from_bytes\<close> returns a result (it does not raise), the confidence of
  the result lies in [0, 1] and is 0 exactly when the value is \<^verbatim>\<open>None\<close>; and when the
  extractor finds no value in the window of any of the first eight anchor hits, nor in
  the head or the tail of the document, the result is \<^verbatim>\<open>FieldResult(None, 0.0, {})\<close>.
\<close>

theorem resolve_field_never_raises:
  "\<exists>r. resolve_field partial_ratio lines extractor_fn f = Inr r
       \<and> 0 \<le> confidence r \<and> confidence r \<le> 1
       \<and> (confidence r = 0 \<longleftrightarrow> fvalue r = None)
       \<and> (list_all (\<lambda>w. \<not> truthy (extractor_fn w)) (hit_windows partial_ratio lines f)
           \<and> \<not> truthy (extractor_fn (head_text lines))
           \<and> \<not> truthy (extractor_fn (tail_text lines))
           \<longrightarrow> r = empty_result)"
proof -
  obtain phrases where ph: "map_of ANCHORS (field_key f) = Some phrases"
    by (cases f) (simp_all add: ANCHORS_def)
  have cb: "0 \<le> field_conf_base f" by (cases f) simp_all
  have w: "list_all (\<lambda>w. \<not> truthy (extractor_fn w)) (hit_windows partial_ratio lines f)
       = list_all (\<lambda>h. \<not> truthy (extractor_fn (window lines (fst h) 2)))
           (take 8 (best_anchor_hits_local partial_ratio (map py_lower lines) phrases))"
    by (simp add: hit_windows_def ph list_all_iff split_def)
  show ?thesis
    unfolding resolve_field_def w
    by (rule find_with_anchors_ok [OF ph cb])
qed

theorem resolve_field_never_raises_witness:
  "list_all (\<lambda>w. \<not> truthy ((\<lambda>w. None) w))
      (hit_windows (\<lambda>a ln. if str_in a ln then 100 else 0) [''Owner FICO: n/a''] FICO)
   \<and> \<not> truthy ((\<lambda>w. None) (head_text [''Owner FICO: n/a'']))
   \<and> \<not> truthy ((\<lambda>w. None) (tail_text [''Owner FICO: n/a'']))
   \<and> resolve_field (\<lambda>a ln. if str_in a ln then 100 else 0) [''Owner FICO: n/a''] (\<lambda>w. None) FICO
       = Inr empty_result"
  using resolve_field_never_raises
          [of "\<lambda>a ln. if str_in a ln then 100 else 0" "[''Owner FICO: n/a'']" "\<lambda>w. None" FICO]
  by (auto simp: list_all_iff)

section \<open>Recurring positions\<close>

lemma distinct_dd_append:
  "distinct (map fst d) \<Longrightarrow> distinct (map fst (dd_append k v d))"
  by (simp add: dd_append_def distinct_update split: option.splits)

lemma map_of_group_txn:
  "map_of (group_txn groups t) n =
     (if \<not> skipped_name n \<and> normalize_desc (desc t) = n
      then Some ((case map_of groups n of None \<Rightarrow> [] | Some vs \<Rightarrow> vs) @ [dt t])
      else map_of groups n)"
  by (auto simp: group_txn_def Let_def map_of_dd_append)

lemma distinct_group_txn:
  "distinct (map fst groups) \<Longrightarrow> distinct (map fst (group_txn groups t))"
  by (simp add: group_txn_def Let_def distinct_dd_append)

lemma distinct_foldl_group_txn:
  "distinct (map fst acc) \<Longrightarrow> distinct (map fst (foldl group_txn acc txns))"
  by (induction txns arbitrary: acc) (simp_all add: distinct_group_txn)

lemma map_of_foldl_group_txn:
  "map_of (foldl group_txn acc txns) n =
     (case map_of acc n of
        None \<Rightarrow> (if skipped_name n \<or> dates_of txns n = [] then None else Some (dates_of txns n))
      | Some vs \<Rightarrow> Some (vs @ (if skipped_name n then [] else dates_of txns n)))"
proof (induction txns arbitrary: acc)
  case Nil
  then show ?case by (simp add: dates_of_def split: option.splits)
next
  case (Cons t txns)
  show ?case
    by (simp add: Cons.IH map_of_group_txn dates_of_def split: option.splits)
qed

lemma map_of_group_by_desc:
  "map_of (group_by_desc txns) n =
     (if skipped_name n \<or> dates_of txns n = [] then None else Some (dates_of txns n))"
  by (simp add: group_by_desc_def map_of_foldl_group_txn)

lemma distinct_group_by_desc: "distinct (map fst (group_by_desc txns))"
  by (simp add: group_by_desc_def distinct_foldl_group_txn)

lemma day_gaps_nonempty: "2 \<le> length ds \<Longrightarrow> day_gaps ds \<noteq> []"
  by (auto simp: day_gaps_def)

lemma median_nonempty:
  "xs \<noteq> [] \<Longrightarrow> median xs = Inr (case median xs of Inr m \<Rightarrow> m | Inl e \<Rightarrow> 0)"
  by (simp add: median_def Let_def sort_Nil_iff)

lemma classify_group_eq:
  "classify_group (daily, weekly) item =
     Inr (daily @ (if daily_item item then [fst item] else []),
          weekly @ (if weekly_item item then [fst item] else []))"
proof (cases "length (snd item) < 3")
  case True
  then show ?thesis
    by (cases item) (simp add: classify_group_def daily_item_def weekly_item_def)
next
  case False
  obtain n ds where item: "item = (n, ds)" by (cases item) auto
  have len: "3 \<le> length ds" using False item by simp
  then have g: "day_gaps (sort ds) \<noteq> []" by (intro day_gaps_nonempty) simp
  have m: "median (day_gaps (sort ds)) = Inr (median_gap ds)"
    unfolding median_gap_def by (rule median_nonempty [OF g])
  show ?thesis
    using len g
    by (simp add: classify_group_def item Let_def daily_item_def weekly_item_def m)
qed

lemma classify_groups_eq:
  "classify_groups (daily, weekly) items =
     Inr (daily @ map fst (filter daily_item items), weekly @ map fst (filter weekly_item items))"
  by (induction items arbitrary: daily weekly) (simp_all add: classify_group_eq)

lemma sort_remdups_cong: "set xs = set ys \<Longrightarrow> sort (remdups xs) = sort (remdups ys)"
  by (metis sorted_list_of_set_sort_remdups)

lemma in_names_iff: "n \<in> set (map (\<lambda>t. normalize_desc (desc t)) txns) \<longleftrightarrow> dates_of txns n \<noteq> []"
  by (auto simp: dates_of_def filter_empty_conv)

lemma groups_member:
  "(n, ds) \<in> set (group_by_desc txns) \<longleftrightarrow>
     \<not> skipped_name n \<and> dates_of txns n \<noteq> [] \<and> ds = dates_of txns n"
proof -
  have "(n, ds) \<in> set (group_by_desc txns) \<longleftrightarrow> map_of (group_by_desc txns) n = Some ds"
    using distinct_group_by_desc [of txns] by (auto dest: map_of_SomeD)
  then show ?thesis by (auto simp: map_of_group_by_desc)
qed

lemma daily_set:
  "set (map fst (filter daily_item (group_by_desc txns)))
     = set (filter (daily_name txns) (map (\<lambda>t. normalize_desc (desc t)) txns))"
proof -
  have "n \<in> set (map fst (filter daily_item (group_by_desc txns)))
      \<longleftrightarrow> n \<in> set (filter (daily_name txns) (map (\<lambda>t. normalize_desc (desc t)) txns))" for n
  proof -
    have "n \<in> set (map fst (filter daily_item (group_by_desc txns)))
        \<longleftrightarrow> (\<exists>ds. (n, ds) \<in> set (group_by_desc txns) \<and> daily_item (n, ds))"
      by force
    also have "\<dots> \<longleftrightarrow> \<not> skipped_name n \<and> dates_of txns n \<noteq> [] \<and> daily_item (n, dates_of txns n)"
      by (auto simp: groups_member)
    also have "\<dots> \<longleftrightarrow> daily_name txns n \<and> dates_of txns n \<noteq> []"
      by (auto simp: daily_item_def daily_name_def)
    finally show ?thesis using in_names_iff [of n txns] by auto
  qed
  then show ?thesis by blast
qed

lemma weekly_set:
  "set (map fst (filter weekly_item (group_by_desc txns)))
     = set (filter (weekly_name txns) (map (\<lambda>t. normalize_desc (desc t)) txns))"
proof -
  have "n \<in> set (map fst (filter weekly_item (group_by_desc txns)))
      \<longleftrightarrow> n \<in> set (filter (weekly_name txns) (map (\<lambda>t. normalize_desc (desc t)) txns))" for n
  proof -
    have "n \<in> set (map fst (filter weekly_item (group_by_desc txns)))
        \<longleftrightarrow> (\<exists>ds. (n, ds) \<in> set (group_by_desc txns) \<and> weekly_item (n, ds))"
      by force
    also have "\<dots> \<longleftrightarrow> \<not> skipped_name n \<and> dates_of txns n \<noteq> [] \<and> weekly_item (n, dates_of txns n)"
      by (auto simp: groups_member)
    also have "\<dots> \<longleftrightarrow> weekly_name txns n \<and> dates_of txns n \<noteq> []"
      by (auto simp: weekly_item_def weekly_name_def)
    finally show ?thesis using in_names_iff [of n txns] by auto
  qed
  then show ?thesis by blast
qed

lemma detect_positions_refines: "detect_positions txns = Inr (spec_detect_positions txns)"
  using sort_remdups_cong [OF daily_set [of txns]] sort_remdups_cong [OF weekly_set [of txns]]
  by (simp add: detect_positions_def classify_groups_eq spec_detect_positions_def topk_def Let_def)


lemma topk_props: "length (topk xs) \<le> 5 \<and> sorted (topk xs) \<and> distinct (topk xs)"
  by (simp add: topk_def sorted_wrt_take)


lemma weekly_four:
  assumes "\<not> skipped_name n" "sort (dates_of txns n) = [d, d + 7, d + 14, d + 21]"
  shows "weekly_name txns n"
proof -
  have len: "length (dates_of txns n) = 4"
    using arg_cong [OF assms(2), of length] by simp
  have up: "[1..<4] = [1, 2, 3 :: nat]" by (simp add: upt_rec)
  have g: "day_gaps [d, d + 7, d + 14, d + 21] = [7, 7, 7]"
    by (simp add: day_gaps_def up)
  have s: "sort [7, 7, 7 :: int] = [7, 7, 7]" by simp
  have "median [7, 7, 7] = Inr 7"
    by (simp add: median_def Let_def s)
  then have "median_gap (dates_of txns n) = 7"
    by (simp add: median_gap_def assms(2) g)
  then show ?thesis using assms(1) len by (simp add: weekly_name_def)
qed

text \<open>
  Claim C5, as amended. \<^verbatim>\<open>detect_positions\<close> never raises and returns what the rule says:
  transaction dates are grouped by normalized description, leaving out the normalized
  descriptions that are shorter than 4 characters or equal to "deposit" or "online
  transfer"; a name is daily exactly when it has at least 3 occurrences and the median gap
  between consecutive sorted dates is in [0.8, 1.3], weekly exactly when it has at least 3
  occurrences and the median gap is in [5.5, 8.5]; each bucket is the first 5 of the sorted
  names without repetition. A name that is not left out and occurs on exactly four dates
  seven days apart is weekly, and the card purchase on ten irregular dates is in neither
  bucket.
\<close>

theorem detect_positions_rule:
  "detect_positions txns = Inr (spec_detect_positions txns)
   \<and> length (fst (spec_detect_positions txns)) \<le> 5
   \<and> sorted (fst (spec_detect_positions txns)) \<and> distinct (fst (spec_detect_positions txns))
   \<and> length (snd (spec_detect_positions txns)) \<le> 5
   \<and> sorted (snd (spec_detect_positions txns)) \<and> distinct (snd (spec_detect_positions txns))
   \<and> (\<not> skipped_name n \<and> sort (dates_of txns n) = [d, d + 7, d + 14, d + 21]
        \<longrightarrow> weekly_name txns n)
   \<and> detect_positions irregular_example = Inr ([], [])"
proof -
  have a: "detect_positions txns = Inr (spec_detect_positions txns)"
    by (rule detect_positions_refines)
  have b: "length (fst (spec_detect_positions txns)) \<le> 5
      \<and> sorted (fst (spec_detect_positions txns)) \<and> distinct (fst (spec_detect_positions txns))"
    using topk_props [of "filter (daily_name txns) (map (\<lambda>t. normalize_desc (desc t)) txns)"]
    by (simp add: spec_detect_positions_def topk_def Let_def)
  have c: "length (snd (spec_detect_positions txns)) \<le> 5
      \<and> sorted (snd (spec_detect_positions txns)) \<and> distinct (snd (spec_detect_positions txns))"
    using topk_props [of "filter (weekly_name txns) (map (\<lambda>t. normalize_desc (desc t)) txns)"]
    by (simp add: spec_detect_positions_def topk_def Let_def)
  have e: "detect_positions irregular_example = Inr ([], [])"
    by code_simp
  show ?thesis using a b c e weekly_four [of n txns d] by blast
qed

theorem detect_positions_rule_witness:
  "\<not> skipped_name ''acme payroll''
   \<and> sort (dates_of weekly_example ''acme payroll'') = [738886, 738886 + 7, 738886 + 14, 738886 + 21]
   \<and> weekly_name weekly_example ''acme payroll''
   \<and> detect_positions weekly_example = Inr ([], [''acme payroll''])"
proof -
  have h1: "\<not> skipped_name ''acme payroll''" by code_simp
  have h2: "sort (dates_of weekly_example ''acme payroll'')
              = [738886, 738886 + 7, 738886 + 14, 738886 + 21]" by code_simp
  have r: "detect_positions weekly_example = Inr ([], [''acme payroll''])" by code_simp
  show ?thesis
    using detect_positions_rule [of weekly_example "''acme payroll''" 738886] h1 h2 r by blast
qed

text \<open>
  C5 as stated has no exception for generic descriptions: the description ACH on four
  dates seven days apart would be weekly. It is skipped before grouping.
\<close>

theorem detect_positions_skips_generic_counterexample:
  "map dt ach_example = [738886, 738893, 738900, 738907]
   \<and> map desc ach_example = [''ACH'', ''ACH'', ''ACH'', ''ACH'']
   \<and> day_gaps (map dt ach_example) = [7, 7, 7]
   \<and> detect_positions ach_example = Inr ([], [])"
  by code_simp

section \<open>Time in business\<close>

lemma starts_with_iff: "starts_with s p \<longleftrightarrow> (\<exists>post. s = p @ post)"
  by (induction s p rule: starts_with.induct) auto

lemma str_in_iff: "str_in sub s \<longleftrightarrow> (\<exists>pre post. s = pre @ sub @ post)"
proof (induction s)
  case Nil
  then show ?case by auto
next
  case (Cons c cs)
  show ?case
  proof
    assume "str_in sub (c # cs)"
    then consider "starts_with (c # cs) sub" | "str_in sub cs" by auto
    then show "\<exists>pre post. c # cs = pre @ sub @ post"
    proof cases
      case 1
      then obtain post where "c # cs = sub @ post" using starts_with_iff by blast
      then have "c # cs = [] @ sub @ post" by simp
      then show ?thesis by blast
    next
      case 2
      then obtain pre post where "cs = pre @ sub @ post" using Cons.IH by blast
      then have "c # cs = (c # pre) @ sub @ post" by simp
      then show ?thesis by blast
    qed
  next
    assume "\<exists>pre post. c # cs = pre @ sub @ post"
    then obtain pre post where e: "c # cs = pre @ sub @ post" by blast
    show "str_in sub (c # cs)"
    proof (cases pre)
      case Nil
      then have "starts_with (c # cs) sub" using e starts_with_iff by auto
      then show ?thesis by simp
    next
      case (Cons p ps)
      then have "cs = ps @ sub @ post" using e by simp
      then have "str_in sub cs" using Cons.IH by blast
      then show ?thesis by simp
    qed
  qed
qed

text \<open>
  Claim C7. The keywords are looked up in the lower-cased window. When none of the ten
  keywords occurs there, \<^verbatim>\<open>parse_tib_value_strict\<close> returns \<^verbatim>\<open>None\<close>, whatever years,
  months or dates the window holds, whatever the date parser does and whatever the date is.
\<close>

theorem parse_tib_value_strict_gate:
  assumes "\<forall>k \<in> set TIB_KEYWORDS. \<not> (\<exists>pre post. py_lower neigh = pre @ k @ post)"
  shows "parse_tib_value_strict dateparse today neigh = None"
proof -
  have "\<not> has_tib_keyword neigh"
    using assms by (simp add: has_tib_keyword_def list_ex_iff str_in_iff)
  then show ?thesis by (simp add: parse_tib_value_strict_def)
qed


theorem parse_tib_value_strict_gate_witness:
  "list_all (\<lambda>k. \<not> str_in k (py_lower ''5 Years 3 Months, opened 01/02/2020'')) TIB_KEYWORDS
   \<and> parse_tib_value_strict no_dateparse 738886 ''5 Years 3 Months, opened 01/02/2020'' = None"
proof -
  have n: "list_all (\<lambda>k. \<not> str_in k (py_lower ''5 Years 3 Months, opened 01/02/2020''))
             TIB_KEYWORDS"
    by code_simp
  then have h: "\<forall>k \<in> set TIB_KEYWORDS.
      \<not> (\<exists>pre post. py_lower ''5 Years 3 Months, opened 01/02/2020'' = pre @ k @ post)"
    unfolding list_all_iff str_in_iff by blast
  show ?thesis
    using parse_tib_value_strict_gate [OF h, of no_dateparse 738886] n by blast
qed








section \<open>The statement month\<close>

lemma month_and_day_year: "fst (month_and_day y l n) = y"
  by (simp add: month_and_day_def Let_def)


lemma ord2ymd_year_range:
  assumes "1 \<le> d" "d \<le> MAXORDINAL"
  shows "1 \<le> year_of d \<and> year_of d \<le> 9999"
proof -
  define n0 where "n0 = d - 1"
  define n400 where "n400 = n0 div 146097"
  define na where "na = n0 mod 146097"
  define n100 where "n100 = na div 36524"
  define nb where "nb = na mod 36524"
  define n4 where "n4 = nb div 1461"
  define nc where "nc = nb mod 1461"
  define n1 where "n1 = nc div 365"
  have r0: "0 \<le> n0" "n0 \<le> 3652058" using assms by (simp_all add: n0_def MAXORDINAL_def)
  have e0: "n0 = 146097 * n400 + na" "0 \<le> na" "na < 146097"
    by (simp_all add: n400_def na_def)
  have e1: "na = 36524 * n100 + nb" "0 \<le> nb" "nb < 36524"
    by (simp_all add: n100_def nb_def)
  have e2: "nb = 1461 * n4 + nc" "0 \<le> nc" "nc < 1461"
    by (simp_all add: n4_def nc_def)
  have e3: "0 \<le> n1" "365 * n1 \<le> nc" "nc < 365 * n1 + 365"
    unfolding n1_def by (simp_all add: pos_imp_zdiv_nonneg_iff e2)
  have b400: "0 \<le> n400" "n400 \<le> 24" using r0 e0 by linarith+
  have b100: "0 \<le> n100" "n100 \<le> 4" using e0 e1 by linarith+
  have b4: "0 \<le> n4" "n4 \<le> 24" using e1 e2 by linarith+
  have b1: "n1 \<le> 4" using e2 e3 by linarith
  have y: "year_of d = (if n1 = 4 \<or> n100 = 4 then n400 * 400 + 1 + n100 * 100 + n4 * 4 + n1 - 1
                        else n400 * 400 + 1 + n100 * 100 + n4 * 4 + n1)"
    unfolding year_of_def ord2ymd_def Let_def n0_def [symmetric] n400_def [symmetric]
      na_def [symmetric] n100_def [symmetric] nb_def [symmetric] n4_def [symmetric]
      nc_def [symmetric] n1_def [symmetric]
    by (simp add: month_and_day_year split: if_splits)
  have lo: "1 \<le> year_of d" unfolding y using b400 b100 b4 e3(1) by auto
  have hi: "year_of d \<le> 9999"
  proof (cases "n400 = 24")
    case False
    then have "n400 \<le> 23" using b400 by linarith
    then show ?thesis unfolding y using b100 b4 b1 by (auto split: if_splits)
  next
    case True
    then have na: "na \<le> 145730" using r0 e0 by linarith
    show ?thesis
    proof (cases "n100 \<le> 2")
      case True
      then show ?thesis unfolding y using \<open>n400 = 24\<close> b4 b1 by (auto split: if_splits)
    next
      case False
      then have n100: "n100 = 3" using na e1 by linarith
      then have nb: "nb \<le> 36158" using na e1 by linarith
      show ?thesis
      proof (cases "n4 \<le> 23")
        case True
        then show ?thesis unfolding y using \<open>n400 = 24\<close> n100 b1 by (auto split: if_splits)
      next
        case False
        then have n4: "n4 = 24" using b4 by linarith
        then have "nc \<le> 1094" using nb e2 by linarith
        then have "n1 \<le> 2" using e3 by linarith
        then show ?thesis unfolding y using \<open>n400 = 24\<close> n100 n4 by (auto split: if_splits)
      qed
    qed
  qed
  show ?thesis using lo hi by simp
qed


lemma month_guess_range:
  fixes n :: int
  assumes "0 \<le> n" "n \<le> 364"
  shows "1 \<le> (n + 50) div 32 \<and> (n + 50) div 32 \<le> 12"
proof -
  have "50 div 32 \<le> (n + 50) div (32::int)" using assms(1) by (intro zdiv_mono1) simp_all
  moreover have "(n + 50) div (32::int) \<le> 414 div 32" using assms(2) by (intro zdiv_mono1) simp_all
  ultimately show ?thesis by simp
qed

lemma month_and_day_month:
  assumes "0 \<le> n" "n \<le> 364"
  shows "1 \<le> fst (snd (month_and_day y l n)) \<and> fst (snd (month_and_day y l n)) \<le> 12"
proof -
  define month where "month = (n + 50) div 32"
  have m: "1 \<le> month" "month \<le> 12"
    using month_guess_range [OF assms] by (simp_all add: month_def)
  have first: "\<not> n < DAYS_BEFORE_MONTH ! nat month + (if 2 < month \<and> l then 1 else 0)"
    if "month = 1"
    using that assms(1) by (simp add: DAYS_BEFORE_MONTH_def)
  have "fst (snd (month_and_day y l n)) = month
      \<or> (fst (snd (month_and_day y l n)) = month - 1 \<and> month \<noteq> 1)"
    unfolding month_and_day_def Let_def month_def [symmetric]
    using first by (auto split: if_splits)
  then show ?thesis using m by linarith
qed

lemma ord2ymd_month_range: "1 \<le> month_of d \<and> month_of d \<le> 12"
proof -
  define nc where "nc = ((d - 1) mod 146097 mod 36524) mod 1461"
  have n: "0 \<le> nc mod 365" "nc mod 365 \<le> 364" by simp_all
  show ?thesis
    unfolding month_of_def ord2ymd_def Let_def nc_def [symmetric]
    using month_and_day_month [OF n] by (simp split: if_splits)
qed

lemma is_digit_digit_char: "is_digit (digit_char n)"
proof -
  have "48 + n mod 10 < 58" by simp
  then have "(48 + n mod 10) mod 256 = 48 + n mod 10" by simp
  then show ?thesis by (simp add: is_digit_def digit_char_def Let_def)
qed

lemma nat_digits_digits: "list_all is_digit (nat_digits n)"
proof (induction n rule: nat_digits.induct)
  case (1 n)
  show ?case
    by (subst nat_digits.simps) (simp add: "1.IH" is_digit_digit_char)
qed

lemma nat_digits_length: "n < 10 ^ k \<Longrightarrow> 0 < k \<Longrightarrow> length (nat_digits n) \<le> k"
proof (induction k arbitrary: n)
  case 0
  then show ?case by simp
next
  case (Suc k)
  show ?case
  proof (cases "n < 10")
    case True
    then show ?thesis by (subst nat_digits.simps) simp
  next
    case False
    then have k: "0 < k" using Suc.prems(1) by (cases k) auto
    have "n div 10 < 10 ^ k" using Suc.prems(1) by (simp add: less_mult_imp_div_less mult.commute)
    then have "length (nat_digits (n div 10)) \<le> k" using Suc.IH k by blast
    then show ?thesis using False by (subst nat_digits.simps) simp
  qed
qed

lemma is_digit_zero: "is_digit (CHR ''0'')"
  by (simp add: is_digit_def)

lemma fmt_0d_digits:
  assumes "0 \<le> n" "n < 10 ^ w" "0 < w"
  shows "length (fmt_0d w n) = w \<and> list_all is_digit (fmt_0d w n)"
proof -
  have "nat n < 10 ^ w" using assms(1,2) by (simp add: nat_less_iff)
  then have "length (nat_digits (nat n)) \<le> w" using assms(3) by (rule nat_digits_length)
  then show ?thesis
    using assms(1) nat_digits_digits [of "nat n"]
    by (auto simp: fmt_0d_def zfill_def is_digit_zero list_all_iff)
qed


lemma parse_nat_month: "1 \<le> m \<Longrightarrow> m \<le> 12 \<Longrightarrow> int (parse_nat (fmt_0d 2 m)) = m"
proof -
  assume "1 \<le> m" "m \<le> 12"
  then have "m \<in> set [1..12]" by simp
  moreover have "list_all (\<lambda>k. int (parse_nat (fmt_0d 2 k)) = k) [1..12]"
    by code_simp
  ultimately show ?thesis unfolding list_all_iff by blast
qed

lemma year_month_label:
  assumes "1 \<le> y" "y \<le> 9999" "1 \<le> m" "m \<le> 12"
  shows "year_month_form (fmt_0d 4 y @ ''-'' @ fmt_0d 2 m)"
proof -
  have y: "length (fmt_0d 4 y) = 4 \<and> list_all is_digit (fmt_0d 4 y)"
    using assms(1,2) by (intro fmt_0d_digits) simp_all
  have m: "length (fmt_0d 2 m) = 2 \<and> list_all is_digit (fmt_0d 2 m)"
    using assms(3,4) by (intro fmt_0d_digits) simp_all
  have p: "int (parse_nat (fmt_0d 2 m)) = m" using assms(3,4) by (rule parse_nat_month)
  have "1 \<le> parse_nat (fmt_0d 2 m) \<and> parse_nat (fmt_0d 2 m) \<le> 12"
    using p assms(3,4) by linarith
  then show ?thesis
    using y m by (simp add: year_month_form_def nth_append)
qed

lemma month_key_form:
  assumes "1 \<le> d" "d \<le> MAXORDINAL"
  shows "year_month_form (month_key d)"
  unfolding month_key_def
  using ord2ymd_year_range [OF assms] ord2ymd_month_range [of d]
  by (intro year_month_label) simp_all

lemma days_in_month_pos: "1 \<le> m \<Longrightarrow> m \<le> 12 \<Longrightarrow> 1 \<le> days_in_month y m"
proof -
  assume "1 \<le> m" "m \<le> 12"
  then have "m \<in> set [1..12]" by simp
  moreover have "list_all (\<lambda>k. 1 \<le> DAYS_IN_MONTH ! nat k) [1..12]" by code_simp
  ultimately have "1 \<le> DAYS_IN_MONTH ! nat m" unfolding list_all_iff by blast
  then show ?thesis by (simp add: days_in_month_def)
qed

lemma days_before_month_nonneg: "1 \<le> m \<Longrightarrow> m \<le> 12 \<Longrightarrow> 0 \<le> days_before_month y m"
proof -
  assume "1 \<le> m" "m \<le> 12"
  then have "m \<in> set [1..12]" by simp
  moreover have "list_all (\<lambda>k. 0 \<le> DAYS_BEFORE_MONTH ! nat k) [1..12]" by code_simp
  ultimately have "0 \<le> DAYS_BEFORE_MONTH ! nat m" unfolding list_all_iff by blast
  then show ?thesis by (simp add: days_before_month_def)
qed

lemma days_before_month_later: "2 \<le> m \<Longrightarrow> m \<le> 12 \<Longrightarrow> 31 \<le> days_before_month y m"
proof -
  assume "2 \<le> m" "m \<le> 12"
  then have "m \<in> {2..12}" by simp
  then have "m \<in> set [2..12]" by (simp only: set_upto)
  moreover have "list_all (\<lambda>k. 31 \<le> DAYS_BEFORE_MONTH ! nat k) [2..12]" by code_simp
  ultimately have "31 \<le> DAYS_BEFORE_MONTH ! nat m" unfolding list_all_iff by blast
  then show ?thesis by (simp add: days_before_month_def)
qed

lemma days_before_year_nonneg: "1 \<le> y \<Longrightarrow> 365 * y - 365 \<le> days_before_year y"
proof -
  assume "1 \<le> y"
  then have "0 \<le> y - 1" by simp
  then have "(y - 1) div 100 \<le> (y - 1) div 4"
    by (intro zdiv_mono2) simp_all
  moreover have "0 \<le> (y - 1) div 400" using \<open>0 \<le> y - 1\<close> by (simp add: pos_imp_zdiv_nonneg_iff)
  ultimately show ?thesis by (simp add: days_before_year_def Let_def algebra_simps)
qed

lemma mk_date_first:
  assumes "1 \<le> y" "y \<le> 9999" "1 \<le> m" "m \<le> 12"
  shows "mk_date y m 1 = Inr (days_before_year y + days_before_month y m + 1)"
  using assms days_in_month_pos [OF assms(3,4), of y] by (simp add: mk_date_def)

lemma month_bounds_ok:
  assumes "1 \<le> y" "y \<le> 9999" "1 \<le> m" "m \<le> 12" "\<not> (y = 9999 \<and> m = 12)"
  shows "\<exists>b. month_bounds y m = Inr b"
proof -
  define Y where "Y = y + m div 12"
  define M where "M = m mod 12 + 1"
  have mdiv: "m div 12 = (if m = 12 then 1 else 0)" using assms(3,4) by (auto simp: div_pos_pos_trivial)
  have Y: "1 \<le> Y" "Y \<le> 9999" using assms mdiv by (auto simp: Y_def)
  have M: "1 \<le> M" "M \<le> 12" by (simp_all add: M_def)
  have first: "mk_date y m 1 = Inr (days_before_year y + days_before_month y m + 1)"
    by (rule mk_date_first [OF assms(1-4)])
  have nxt: "mk_date Y M 1 = Inr (days_before_year Y + days_before_month Y M + 1)"
    by (rule mk_date_first [OF Y M])
  have dby: "365 * Y - 365 \<le> days_before_year Y" by (rule days_before_year_nonneg [OF Y(1)])
  have dbm: "0 \<le> days_before_month Y M" by (rule days_before_month_nonneg [OF M])
  have big: "1 \<le> days_before_year Y + days_before_month Y M"
  proof (cases "m = 12")
    case True
    then have "2 \<le> Y" using assms(1) mdiv by (simp add: Y_def)
    then show ?thesis using dby dbm by linarith
  next
    case False
    then have "m mod 12 = m" using assms(3,4) by (simp add: mod_pos_pos_trivial)
    then have "2 \<le> M" using assms(3) by (simp add: M_def)
    then have "31 \<le> days_before_month Y M" using M(2) by (rule days_before_month_later)
    then show ?thesis using dby Y(1) by linarith
  qed
  show ?thesis
    using big nxt
    by (simp add: month_bounds_def first sub_one_day_def Y_def [symmetric] M_def [symmetric])
qed

lemma returns_datesD:
  "returns_dates dp \<Longrightarrow> dp raw = Some d \<Longrightarrow> 1 \<le> d \<and> d \<le> MAXORDINAL"
  unfolding returns_dates_def by blast

lemma period_A_form:
  assumes "returns_dates dp" "period_A dp text = Some p"
  shows "year_month_form (fst p)"
proof -
  obtain raw d2 where "dp raw = Some d2" "fst p = month_key d2"
    using assms(2) by (auto simp: period_A_def split: option.splits)
  then show ?thesis using returns_datesD [OF assms(1)] month_key_form by metis
qed

lemma try_range_second: "try_range dp m = Some (d1, d2) \<Longrightarrow> dp (group_text m 2) = Some d2"
  by (auto simp: try_range_def split: option.splits if_splits)

lemma first_range_second:
  "first_range dp text pats = Some (d1, d2) \<Longrightarrow> \<exists>raw. dp raw = Some d2"
proof (induction pats)
  case Nil
  then show ?case by simp
next
  case (Cons pat pats)
  then show ?case
    by (auto split: option.splits dest: try_range_second)
qed

lemma period_B_form:
  assumes "returns_dates dp" "period_B dp text = Some p"
  shows "year_month_form (fst p)"
proof -
  obtain d1 d2 where r: "parse_period_variants dp text = Some (d1, d2)" "fst p = month_key d2"
    using assms(2) by (auto simp: period_B_def split: option.splits)
  then obtain raw where "dp raw = Some d2"
    unfolding parse_period_variants_def using first_range_second by blast
  then show ?thesis using r(2) returns_datesD [OF assms(1)] month_key_form by metis
qed

lemma period_C_form:
  assumes "returns_dates dp" "period_C dp text = Some p"
  shows "year_month_form (fst p)"
proof -
  obtain raw d where "dp raw = Some d" "fst p = month_key d"
    using assms(2) by (auto simp: period_C_def split: option.splits sum.splits)
  then show ?thesis using returns_datesD [OF assms(1)] month_key_form by metis
qed

lemma fold_max_in: "fold max ds (d::int) \<in> set (d # ds)"
proof (induction ds arbitrary: d)
  case Nil
  then show ?case by simp
next
  case (Cons x xs)
  define m where "m = max x d"
  have "fold max xs m \<in> set (m # xs)" by (rule Cons.IH)
  moreover have "m = x \<or> m = d" by (simp add: m_def max_def)
  moreover have "fold max (x # xs) d = fold max xs m" by (simp add: m_def)
  ultimately show ?case by auto
qed

lemma map_filter_image: "x \<in> set (List.map_filter f xs) \<Longrightarrow> \<exists>a. f a = Some x"
  by (auto simp: List.map_filter_def)

lemma period_D_date:
  assumes "List.map_filter (\<lambda>m. dp (m_text m)) (re_finditer False DATE_Y_PAT text) = d # ds"
  shows "\<exists>raw. dp raw = Some (max_date d ds)"
proof -
  have "max_date d ds \<in> set (List.map_filter (\<lambda>m. dp (m_text m)) (re_finditer False DATE_Y_PAT text))"
    unfolding assms max_date_def by (rule fold_max_in)
  then show ?thesis using map_filter_image by fastforce
qed

lemma period_D_form:
  assumes "returns_dates dp" "period_D dp text = Inr (Some p)"
  shows "year_month_form (fst p)"
proof -
  obtain d ds where l: "List.map_filter (\<lambda>m. dp (m_text m)) (re_finditer False DATE_Y_PAT text) = d # ds"
    and lbl: "fst p = month_key (max_date d ds)"
    using assms(2) by (auto simp: period_D_def Let_def split: list.splits sum.splits)
  obtain raw where "dp raw = Some (max_date d ds)" using period_D_date [OF l] by blast
  then show ?thesis using lbl returns_datesD [OF assms(1)] month_key_form by metis
qed

lemma period_D_returns:
  assumes "returns_dates dp"
    and "\<forall>raw d. dp raw = Some d \<longrightarrow> \<not> (year_of d = 9999 \<and> month_of d = 12)"
  shows "\<exists>r. period_D dp text = Inr r"
proof (cases "List.map_filter (\<lambda>m. dp (m_text m)) (re_finditer False DATE_Y_PAT text)")
  case Nil
  then show ?thesis by (simp add: period_D_def)
next
  case (Cons d ds)
  obtain raw where raw: "dp raw = Some (max_date d ds)" using period_D_date [OF Cons] by blast
  then have v: "1 \<le> max_date d ds \<and> max_date d ds \<le> MAXORDINAL"
    using returns_datesD [OF assms(1)] by blast
  have n: "\<not> (year_of (max_date d ds) = 9999 \<and> month_of (max_date d ds) = 12)"
    using assms(2) raw by blast
  obtain b where "month_bounds (year_of (max_date d ds)) (month_of (max_date d ds)) = Inr b"
    using month_bounds_ok [of "year_of (max_date d ds)" "month_of (max_date d ds)"]
      ord2ymd_year_range [of "max_date d ds"] ord2ymd_month_range [of "max_date d ds"] v n
    by blast
  then show ?thesis by (cases b) (simp add: period_D_def Cons Let_def)
qed

lemma mk_date_ranges: "mk_date y m d = Inr x \<Longrightarrow> 1 \<le> y \<and> y \<le> 9999 \<and> 1 \<le> m \<and> m \<le> 12"
  by (auto simp: mk_date_def split: if_splits)

lemma filename_period_form: "filename_period y mo dd = Some p \<Longrightarrow> year_month_form (fst p)"
proof -
  assume a: "filename_period y mo dd = Some p"
  then obtain x where "mk_date y mo dd = Inr x" and "fst p = fmt_0d 4 y @ ''-'' @ fmt_0d 2 mo"
    by (auto simp: filename_period_def split: sum.splits)
  then show ?thesis using mk_date_ranges [of y mo dd x] year_month_label [of y mo] by simp
qed

lemma month_from_filename_form: "month_from_filename filename = Some p \<Longrightarrow> year_month_form (fst p)"
  by (auto simp: month_from_filename_def Let_def split: option.splits if_splits
      dest: filename_period_form)

text \<open>
  Claim C9, as amended. Let the date parser return dates of Python's range. Whenever
  \<^verbatim>\<open>summarize_statement\<close> gets past its first two statements, the statement month is a
  well-formed \<^verbatim>\<open>YYYY-MM\<close> (four digits, a hyphen, two digits between 01 and 12) or the
  sentinel \<^verbatim>\<open>[unknown]\<close>, with its brackets; and it does get past them unless the parser
  returns a date of December 9999, for which step (D) of \<^verbatim>\<open>month_from_period\<close> raises
  \<^verbatim>\<open>ValueError\<close> on the first day of year 10000.
\<close>

theorem statement_month_form:
  assumes "returns_dates dateparse"
  shows "(\<forall>s. statement_month dateparse text filename = Inr s
              \<longrightarrow> year_month_form s \<or> s = ''[unknown]'')
       \<and> ((\<forall>raw d. dateparse raw = Some d \<longrightarrow> \<not> (year_of d = 9999 \<and> month_of d = 12))
            \<longrightarrow> (\<exists>s. statement_month dateparse text filename = Inr s))"
proof (intro conjI allI impI)
  fix s
  assume r: "statement_month dateparse text filename = Inr s"
  show "year_month_form s \<or> s = ''[unknown]''"
  proof (cases "s = ''[unknown]''")
    case True
    then show ?thesis by simp
  next
    case False
    then obtain p where p: "month_from_period dateparse text filename = Inr (Some p)" "s = fst p"
      using r by (auto simp: statement_month_def split: sum.splits option.splits)
    then consider "period_A dateparse text = Some p" | "period_B dateparse text = Some p"
      | "period_C dateparse text = Some p" | "period_D dateparse text = Inr (Some p)"
      | "month_from_filename filename = Some p"
      by (auto simp: month_from_period_def split: option.splits sum.splits)
    then have "year_month_form (fst p)"
      using period_A_form [OF assms] period_B_form [OF assms] period_C_form [OF assms]
        period_D_form [OF assms] month_from_filename_form
      by cases blast+
    then show ?thesis using p(2) by simp
  qed
next
  assume "\<forall>raw d. dateparse raw = Some d \<longrightarrow> \<not> (year_of d = 9999 \<and> month_of d = 12)"
  then obtain r where "period_D dateparse text = Inr r"
    using period_D_returns [OF assms] by blast
  then show "\<exists>s. statement_month dateparse text filename = Inr s"
    by (auto simp: statement_month_def month_from_period_def split: option.splits sum.splits)
qed

theorem statement_month_form_witness:
  "returns_dates june_dateparse
   \<and> statement_month june_dateparse ''Statement Period: 06/01/2025 to 06/30/2025'' None
       = Inr ''2025-06''
   \<and> year_month_form ''2025-06''"
proof -
  have y: "year_of 739403 = 2025 \<and> year_of 739432 = 2025" by code_simp
  have rd: "returns_dates june_dateparse"
    by (auto simp: returns_dates_def june_dateparse_def MAXORDINAL_def split: if_splits)
  have nd: "\<forall>raw d. june_dateparse raw = Some d \<longrightarrow> \<not> (year_of d = 9999 \<and> month_of d = 12)"
    using y by (auto simp: june_dateparse_def split: if_splits)
  have v: "statement_month june_dateparse ''Statement Period: 06/01/2025 to 06/30/2025'' None
       = Inr ''2025-06''"
    by code_simp
  have "year_month_form ''2025-06'' \<or> ''2025-06'' = ''[unknown]''"
    using statement_month_form
            [OF rd, of "''Statement Period: 06/01/2025 to 06/30/2025''" None] v nd
    by blast
  then show ?thesis using rd v by simp
qed

text \<open>
  The exception of step (D), on a text whose only date is the last day of the calendar.
\<close>

lemma statement_month_december_9999:
  "statement_month (\<lambda>raw. Some MAXORDINAL) ''paid 12/31/9999'' None = Inl ValueError"
  by code_simp

text \<open>
  C9 as stated names the sentinel \<^verbatim>\<open>unknown\<close>. A text without any date and no file name
  gives \<^verbatim>\<open>[unknown]\<close>, which is neither that string nor a \<^verbatim>\<open>YYYY-MM\<close>.
\<close>

theorem statement_month_sentinel_counterexample:
  "statement_month no_dateparse ''Account summary'' None = Inr ''[unknown]''
   \<and> \<not> year_month_form ''[unknown]''
   \<and> ''[unknown]'' \<noteq> ''unknown''"
  by code_simp

section \<open>State resolution\<close>







end
